theory Spec2Isabelle
  imports Main "HOL-Library.List_Lexorder" "HOL-Library.Char_ord"
begin

section \<open>Data model (src/src/index.ts, lines 4-40)\<close>

text \<open>
  The canister of \<^verbatim>\<open>src/src/index.ts\<close> (lines 1-365) keeps two stable maps, one of songs
  and one of playlists, and exposes update and query calls on them. The same file holds a
  second copy of the canister (lines 366-663), which trims the fields it validates, and
  \<^verbatim>\<open>src/unnamed/part_000\<close> holds a third, whose \<^verbatim>\<open>updatePlaylist\<close> rejects a blank name or
  description. The definitions below follow the first copy line by line.

  \<^item> \<^verbatim>\<open>int64\<close> is a JavaScript \<^verbatim>\<open>bigint\<close> in azle: \<^verbatim>\<open>+\<close>, \<^verbatim>\<open>-\<close> and \<^verbatim>\<open>>=\<close> are exact and never
    wrap, so the durations are \<^typ>\<open>int\<close>; \<^verbatim>\<open>nat64\<close> timestamps are \<^typ>\<open>nat\<close>. The 64-bit
    range is enforced only where a record is encoded for the stable map.
  \<^item> A \<^verbatim>\<open>Principal\<close> is only ever compared through \<^verbatim>\<open>toString()\<close>, so it is its text.
  \<^item> \<^verbatim>\<open>Result<T, string>\<close> is the sum \<open>string + T\<close>: \<open>Inl\<close> carries the error message
    (\<^verbatim>\<open>Result.Err\<close>), \<open>Inr\<close> the value (\<^verbatim>\<open>Result.Ok\<close>). The code has no error classes;
    the kind of an error is its message.
  \<^item> \<^verbatim>\<open>Song\<close> is \<^verbatim>\<open>{ id, uploadedAt, ...payload }\<close> and \<^verbatim>\<open>Playlist\<close> is
    \<^verbatim>\<open>{ id, admin, songs, totalDuration, createdAt, updatedAt, ...payload }\<close>, so each
    record extends its payload record. The field \<^verbatim>\<open>id\<close> is \<open>song_id\<close> resp. \<open>playlist_id\<close>.
\<close>

type_synonym Principal = string

type_synonym 'a Result = "string + 'a"

abbreviation Err :: "string \<Rightarrow> 'a Result" where
  "Err \<equiv> Inl"

abbreviation Ok :: "'a \<Rightarrow> 'a Result" where
  "Ok \<equiv> Inr"

record SongPayload =
  fileName :: string
  mimeType :: string
  title :: string
  singers :: "string list"
  genre :: string
  duration :: int
  releaseDate :: string

record Song = SongPayload +
  song_id :: string
  uploadedAt :: nat

record PlaylistPayload =
  name :: string
  description :: string

record Playlist = PlaylistPayload +
  playlist_id :: string
  admin :: Principal
  songs :: "string list"
  totalDuration :: int
  createdAt :: nat
  updatedAt :: "nat option"

section \<open>The ordered store\<close>

text \<open>
  \<^verbatim>\<open>StableBTreeMap\<close> is imported from azle; its implementation is not part of the sources.
  Section 4.1 of the specification gives its contract: an ordered mapping from string keys to
  records, whose \<open>values\<close> come in key order (lexicographic on the identifier). The store
  is an association list kept in key order. \<open>get\<close> returns a decoded copy of the record, so
  changing the copy does not change the store. The limits of the map (44 bytes per encoded
  key, 1024 bytes per encoded value, 64 bits per integer) are not modelled: \<open>insert\<close>
  always succeeds, so the \<^verbatim>\<open>catch\<close> branches of \<^verbatim>\<open>uploadSong\<close> and \<^verbatim>\<open>createPlaylist\<close> have no
  counterpart, and no call traps.
\<close>

type_synonym 'v Store = "(string \<times> 'v) list"

text \<open>
  Modelled from the spec: \<^verbatim>\<open>StableBTreeMap.get\<close> (its code is missing), "get(key) -> optional
  V".
\<close>

definition store_get :: "'v Store \<Rightarrow> string \<Rightarrow> 'v option" where
  "store_get s k = map_of s k"

text \<open>
  Modelled from the spec: \<^verbatim>\<open>StableBTreeMap.insert\<close> (its code is missing), "insert(key, value)":
  the entry of the key is replaced, or added at its place in the key order. The previous
  value, which the specification has \<open>insert\<close> return, is dropped: no caller reads it.
\<close>

fun store_insert :: "string \<Rightarrow> 'v \<Rightarrow> 'v Store \<Rightarrow> 'v Store" where
  "store_insert k v [] = [(k, v)]"
| "store_insert k v ((k', v') # s) =
     (if k = k' then (k, v) # s
      else if k < k' then (k, v) # (k', v') # s
      else (k', v') # store_insert k v s)"

text \<open>
  Modelled from the spec: \<^verbatim>\<open>StableBTreeMap.remove\<close> (its code is missing), "remove(key)"; the
  removed value is dropped as well.
\<close>

definition store_remove :: "string \<Rightarrow> 'v Store \<Rightarrow> 'v Store" where
  "store_remove k s = filter (\<lambda>e. fst e \<noteq> k) s"

text \<open>
  Modelled from the spec: \<^verbatim>\<open>StableBTreeMap.values\<close> (its code is missing), "values() -> sequence
  of all V in key order".
\<close>

definition store_values :: "'v Store \<Rightarrow> 'v list" where
  "store_values s = map snd s"

text \<open>The keys of a store.\<close>

definition store_keys :: "'v Store \<Rightarrow> string set" where
  "store_keys s = fst ` set s"

record State =
  songsStorage :: "Song Store"
  playlistsStorage :: "Playlist Store"

definition initState :: State where
  "initState = \<lparr> songsStorage = [], playlistsStorage = [] \<rparr>"

text \<open>
  What a call reads from its surroundings: \<^verbatim>\<open>ic.caller()\<close>, \<^verbatim>\<open>ic.time()\<close> and the
  identifier that \<^verbatim>\<open>uuidv4()\<close> returns. Each call reads each of them at most once; only
  \<^verbatim>\<open>uploadSong\<close> and \<^verbatim>\<open>createPlaylist\<close> read the identifier.
\<close>

record Env =
  ic_caller :: Principal
  ic_time :: nat
  uuidv4 :: string

section \<open>Error messages (lines 45-52)\<close>

definition fieldCannotBeEmpty :: "string \<Rightarrow> string" where
  "fieldCannotBeEmpty fieldName = fieldName @ '' cannot be empty.''"

definition recordWithIdNotFound :: "string \<Rightarrow> string \<Rightarrow> string" where
  "recordWithIdNotFound recordName i = recordName @ '' with id='' @ i @ '' not found.''"

definition nonAdmin :: "string \<Rightarrow> string" where
  "nonAdmin i = ''IC caller isn't the admin of the playlist with id '' @ i @ ''.''"

definition couldNotUpdate :: "string \<Rightarrow> string \<Rightarrow> string" where
  "couldNotUpdate recordName i =
     ''Couldn't update the '' @ recordName @ '' with id='' @ i @ '', because record not found.''"

definition couldNotRemove :: "string \<Rightarrow> string \<Rightarrow> string" where
  "couldNotRemove recordName i =
     ''Couldn't remove the '' @ recordName @ '' with id='' @ i @ '', because record not found.''"

definition alreadyExists :: "string \<Rightarrow> string" where
  "alreadyExists recordName = recordName @ '' already exists.''"

definition nothingAdded :: string where
  "nothingAdded = ''Unable to find the songs you wanted to add or they all already exist.''"

section \<open>Create (lines 54-123)\<close>

definition uploadSong :: "Env \<Rightarrow> SongPayload \<Rightarrow> State \<Rightarrow> Song Result \<times> State" where
  "uploadSong env payload st =
     (if fileName payload = '''' then (Err (fieldCannotBeEmpty ''File name''), st)
      else if mimeType payload = '''' then (Err (fieldCannotBeEmpty ''File type''), st)
      else if title payload = '''' then (Err (fieldCannotBeEmpty ''Title''), st)
      else if length (singers payload) = 0 then (Err ''You must provide singer(s).'', st)
      else
        (case List.find (\<lambda>song. fileName song = fileName payload \<and> title song = title payload)
                (store_values (songsStorage st)) of
           Some existingSong \<Rightarrow> (Err (alreadyExists ''Song''), st)
         | None \<Rightarrow>
             (let song = \<lparr> fileName = fileName payload, mimeType = mimeType payload,
                           title = title payload, singers = singers payload,
                           genre = genre payload, duration = duration payload,
                           releaseDate = releaseDate payload,
                           song_id = uuidv4 env, uploadedAt = ic_time env \<rparr>
              in (Ok song,
                  st\<lparr>songsStorage := store_insert (song_id song) song (songsStorage st)\<rparr>))))"

definition createPlaylist :: "Env \<Rightarrow> PlaylistPayload \<Rightarrow> State \<Rightarrow> Playlist Result \<times> State" where
  "createPlaylist env payload st =
     (if name payload = '''' then (Err (fieldCannotBeEmpty ''Playlist name''), st)
      else
        (case List.find (\<lambda>playlist. name playlist = name payload)
                (store_values (playlistsStorage st)) of
           Some existingPlaylist \<Rightarrow> (Err (alreadyExists ''Playlist''), st)
         | None \<Rightarrow>
             (let playlist = \<lparr> name = name payload, description = description payload,
                               playlist_id = uuidv4 env, admin = ic_caller env,
                               songs = [], totalDuration = 0,
                               createdAt = ic_time env, updatedAt = None \<rparr>
              in (Ok playlist,
                  st\<lparr>playlistsStorage :=
                       store_insert (playlist_id playlist) playlist (playlistsStorage st)\<rparr>))))"

section \<open>Read (lines 125-158)\<close>

definition getSong :: "string \<Rightarrow> State \<Rightarrow> Song Result" where
  "getSong i st =
     (if i = '''' then Err (fieldCannotBeEmpty ''Song id'')
      else case store_get (songsStorage st) i of
             Some song \<Rightarrow> Ok song
           | None \<Rightarrow> Err (recordWithIdNotFound ''Song'' i))"

definition getSongs :: "State \<Rightarrow> Song list Result" where
  "getSongs st = Ok (store_values (songsStorage st))"

definition getPlaylist :: "string \<Rightarrow> State \<Rightarrow> Playlist Result" where
  "getPlaylist i st =
     (if i = '''' then Err (fieldCannotBeEmpty ''Playlist id'')
      else case store_get (playlistsStorage st) i of
             Some playlist \<Rightarrow> Ok playlist
           | None \<Rightarrow> Err (recordWithIdNotFound ''Playlist'' i))"

definition getPlaylists :: "State \<Rightarrow> Playlist list Result" where
  "getPlaylists st = Ok (store_values (playlistsStorage st))"

section \<open>Update (lines 160-214 and 277-290)\<close>

definition updatePlaylist ::
  "Env \<Rightarrow> string \<Rightarrow> PlaylistPayload \<Rightarrow> State \<Rightarrow> Playlist Result \<times> State" where
  "updatePlaylist env i payload st =
     (case store_get (playlistsStorage st) i of
        Some playlist \<Rightarrow>
          if admin playlist \<noteq> ic_caller env then (Err (nonAdmin i), st)
          else
            (let updatedPlaylist = playlist\<lparr>name := name payload,
                                           description := description payload,
                                           updatedAt := Some (ic_time env)\<rparr>
             in (Ok updatedPlaylist,
                 st\<lparr>playlistsStorage :=
                      store_insert (playlist_id playlist) updatedPlaylist (playlistsStorage st)\<rparr>))
      | None \<Rightarrow> (Err (couldNotUpdate ''playlist'' i), st))"

text \<open>
  \<^verbatim>\<open>Array.prototype.find\<close> returns the element found or \<^verbatim>\<open>undefined\<close>, and line 197 tests
  the result with \<^verbatim>\<open>!\<close>: the test passes for \<^verbatim>\<open>undefined\<close> and also for the empty string,
  the one string that is falsy.
\<close>

fun notTruthy :: "string option \<Rightarrow> bool" where
  "notTruthy None = True"
| "notTruthy (Some s) = (s = '''')"

text \<open>
  The \<^verbatim>\<open>forEach\<close> of lines 193-203. The loop state is the copy \<^verbatim>\<open>updatedPlaylist\<close> (its
  \<^verbatim>\<open>songs\<close> and \<^verbatim>\<open>totalDuration\<close> change) and \<^verbatim>\<open>addFlag\<close>.
\<close>

fun addSongsLoop :: "Song Store \<Rightarrow> string list \<Rightarrow> Playlist \<times> bool \<Rightarrow> Playlist \<times> bool" where
  "addSongsLoop ss [] acc = acc"
| "addSongsLoop ss (songId # rest) (updatedPlaylist, addFlag) =
     (case store_get ss songId of
        Some existingSong \<Rightarrow>
          if notTruthy (List.find (\<lambda>i. i = songId) (songs updatedPlaylist))
          then addSongsLoop ss rest
                 (updatedPlaylist\<lparr>songs := songs updatedPlaylist @ [songId],
                                  totalDuration := totalDuration updatedPlaylist
                                                   + duration existingSong\<rparr>,
                  True)
          else addSongsLoop ss rest (updatedPlaylist, addFlag)
      | None \<Rightarrow> addSongsLoop ss rest (updatedPlaylist, addFlag))"

definition addSongsToPlaylist ::
  "Env \<Rightarrow> string \<Rightarrow> string list \<Rightarrow> State \<Rightarrow> Playlist Result \<times> State" where
  "addSongsToPlaylist env i songIds st =
     (if length songIds = 0 then (Err (fieldCannotBeEmpty ''Song list''), st)
      else
        (case store_get (playlistsStorage st) i of
           Some playlist \<Rightarrow>
             if admin playlist \<noteq> ic_caller env then (Err (nonAdmin i), st)
             else
               (case addSongsLoop (songsStorage st) songIds
                       (playlist\<lparr>updatedAt := Some (ic_time env)\<rparr>, False) of
                  (updatedPlaylist, addFlag) \<Rightarrow>
                    if \<not> addFlag then (Err nothingAdded, st)
                    else (Ok updatedPlaylist,
                          st\<lparr>playlistsStorage :=
                               store_insert (playlist_id playlist) updatedPlaylist
                                 (playlistsStorage st)\<rparr>))
         | None \<Rightarrow> (Err (couldNotUpdate ''playlist'' i), st)))"

definition updateSong :: "string \<Rightarrow> SongPayload \<Rightarrow> State \<Rightarrow> Song Result \<times> State" where
  "updateSong i payload st =
     (case store_get (songsStorage st) i of
        Some song \<Rightarrow>
          (let updatedSong = song\<lparr>fileName := fileName payload, mimeType := mimeType payload,
                                 title := title payload, singers := singers payload,
                                 genre := genre payload, duration := duration payload,
                                 releaseDate := releaseDate payload\<rparr>
           in (Ok updatedSong,
               st\<lparr>songsStorage := store_insert i updatedSong (songsStorage st)\<rparr>))
      | None \<Rightarrow> (Err (couldNotUpdate ''song'' i), st))"

section \<open>Delete (lines 216-266)\<close>

definition deletePlaylist :: "Env \<Rightarrow> string \<Rightarrow> State \<Rightarrow> Playlist Result \<times> State" where
  "deletePlaylist env i st =
     (case store_get (playlistsStorage st) i of
        Some playlist \<Rightarrow>
          if admin playlist \<noteq> ic_caller env then (Err (nonAdmin i), st)
          else (Ok playlist, st\<lparr>playlistsStorage := store_remove i (playlistsStorage st)\<rparr>)
      | None \<Rightarrow> (Err (couldNotRemove ''playlist'' i), st))"

text \<open>
  \<^verbatim>\<open>findIndex\<close> returns the index of the first element that satisfies the test, or \<open>-1\<close>;
  \<^verbatim>\<open>splice(songIndex, 1)\<close> removes the element at that index. The source calls \<^verbatim>\<open>splice\<close>
  only with the index \<^verbatim>\<open>findIndex\<close> has found.
\<close>

fun findIndex :: "('a \<Rightarrow> bool) \<Rightarrow> 'a list \<Rightarrow> int" where
  "findIndex P [] = - 1"
| "findIndex P (x # xs) =
     (if P x then 0
      else (let j = findIndex P xs in if j = - 1 then - 1 else j + 1))"

definition splice1 :: "int \<Rightarrow> 'a list \<Rightarrow> 'a list" where
  "splice1 j xs = take (nat j) xs @ drop (nat j + 1) xs"

definition deleteSongFromPlaylist ::
  "Env \<Rightarrow> string \<Rightarrow> string \<Rightarrow> State \<Rightarrow> Playlist Result \<times> State" where
  "deleteSongFromPlaylist env playlistId songId st =
     (if playlistId = '''' then (Err (fieldCannotBeEmpty ''Playlist id''), st)
      else if songId = '''' then (Err (fieldCannotBeEmpty ''Song id''), st)
      else
        (case store_get (playlistsStorage st) playlistId of
           Some playlist \<Rightarrow>
             if admin playlist \<noteq> ic_caller env then (Err (nonAdmin playlistId), st)
             else
               (let songIndex = findIndex (\<lambda>i. i = songId) (songs playlist) in
                if songIndex \<noteq> - 1 then
                  (let newTotal =
                         (case store_get (songsStorage st) songId of
                            Some deletingSong \<Rightarrow>
                              if totalDuration playlist - duration deletingSong \<ge> 0
                              then totalDuration playlist - duration deletingSong
                              else 0
                          | None \<Rightarrow> 0);
                       updatedPlaylist = playlist\<lparr>totalDuration := newTotal,
                                                  songs := splice1 songIndex (songs playlist),
                                                  updatedAt := Some (ic_time env)\<rparr>
                   in (Ok updatedPlaylist,
                       st\<lparr>playlistsStorage :=
                            store_insert (playlist_id playlist) updatedPlaylist
                              (playlistsStorage st)\<rparr>))
                else (Ok playlist, st))
         | None \<Rightarrow> (Err (couldNotRemove ''playlist'' playlistId), st)))"

section \<open>Calls and reachable states\<close>

text \<open>
  The update calls of the canister. A state is reachable when a finite sequence of update
  calls leads to it from the empty stores. The identifier generator is an external
  collaborator: \<^verbatim>\<open>uuidv4()\<close> returns a string of 36 characters, and the identifier is
  assumed to be fresh (no key of either store), as the specification assumes. The
  environment of every call carries the identifier that the generator would return next.
  \<open>reachableBy allowed\<close> restricts the calls to those that \<open>allowed\<close> admits in the
  state they are made in.
\<close>

datatype Call =
    UploadSong SongPayload
  | CreatePlaylist PlaylistPayload
  | UpdatePlaylist string PlaylistPayload
  | AddSongsToPlaylist string "string list"
  | UpdateSong string SongPayload
  | DeletePlaylist string
  | DeleteSongFromPlaylist string string

fun exec :: "Env \<Rightarrow> Call \<Rightarrow> State \<Rightarrow> State" where
  "exec env (UploadSong payload) st = snd (uploadSong env payload st)"
| "exec env (CreatePlaylist payload) st = snd (createPlaylist env payload st)"
| "exec env (UpdatePlaylist i payload) st = snd (updatePlaylist env i payload st)"
| "exec env (AddSongsToPlaylist i songIds) st = snd (addSongsToPlaylist env i songIds st)"
| "exec env (UpdateSong i payload) st = snd (updateSong i payload st)"
| "exec env (DeletePlaylist i) st = snd (deletePlaylist env i st)"
| "exec env (DeleteSongFromPlaylist playlistId songId) st =
     snd (deleteSongFromPlaylist env playlistId songId st)"

definition isUuid :: "string \<Rightarrow> bool" where
  "isUuid u = (length u = 36)"

definition envOk :: "Env \<Rightarrow> State \<Rightarrow> bool" where
  "envOk env st =
     (isUuid (uuidv4 env)
      \<and> uuidv4 env \<notin> store_keys (songsStorage st)
      \<and> uuidv4 env \<notin> store_keys (playlistsStorage st))"

inductive reachableBy :: "(State \<Rightarrow> Call \<Rightarrow> bool) \<Rightarrow> State \<Rightarrow> bool"
  for allowed :: "State \<Rightarrow> Call \<Rightarrow> bool" where
  init: "reachableBy allowed initState"
| step: "reachableBy allowed st \<Longrightarrow> envOk env st \<Longrightarrow> allowed st c
         \<Longrightarrow> reachableBy allowed (exec env c st)"

definition anyCall :: "State \<Rightarrow> Call \<Rightarrow> bool" where
  "anyCall st c = True"

definition reachable :: "State \<Rightarrow> bool" where
  "reachable st = reachableBy anyCall st"

text \<open>
  The calls that leave the durations of the catalogue non-negative and fixed: an upload
  with a non-negative duration, and an \<^verbatim>\<open>updateSong\<close> that keeps the duration of the song
  it rewrites. Every other call qualifies.
\<close>

fun durationStable :: "State \<Rightarrow> Call \<Rightarrow> bool" where
  "durationStable st (UploadSong payload) = (0 \<le> duration payload)"
| "durationStable st (UpdateSong i payload) =
     (case store_get (songsStorage st) i of
        Some song \<Rightarrow> duration payload = duration song
      | None \<Rightarrow> True)"
| "durationStable st c = True"

text \<open>
  The sum of \<^verbatim>\<open>duration\<close> over the identifiers of a playlist that exist in the song store;
  an identifier without a song contributes nothing.
\<close>

definition songDuration :: "Song Store \<Rightarrow> string \<Rightarrow> int" where
  "songDuration ss i = (case store_get ss i of Some song \<Rightarrow> duration song | None \<Rightarrow> 0)"

definition sumDurations :: "Song Store \<Rightarrow> string list \<Rightarrow> int" where
  "sumDurations ss ids = sum_list (map (songDuration ss) ids)"

section \<open>Invariants of the reachable states\<close>

text \<open>The entries of a store are in strictly increasing key order.\<close>

definition keyOrdered :: "'v Store \<Rightarrow> bool" where
  "keyOrdered s = sorted_wrt (<) (map fst s)"

text \<open>
  Every song is stored under its own identifier, and every key is an identifier that
  \<^verbatim>\<open>uuidv4()\<close> produced.
\<close>

definition songsOk :: "State \<Rightarrow> bool" where
  "songsOk st = (\<forall>e\<in>set (songsStorage st). song_id (snd e) = fst e \<and> isUuid (fst e))"

text \<open>
  Every playlist is stored under its own identifier, lists no song twice and lists only songs
  of the song store (no call removes a song).
\<close>

definition playlistOk :: "Song Store \<Rightarrow> string \<times> Playlist \<Rightarrow> bool" where
  "playlistOk ss e =
     (playlist_id (snd e) = fst e \<and> isUuid (fst e) \<and> distinct (songs (snd e))
      \<and> (\<forall>i\<in>set (songs (snd e)). store_get ss i \<noteq> None))"

definition playlistsOk :: "State \<Rightarrow> bool" where
  "playlistsOk st = (\<forall>e\<in>set (playlistsStorage st). playlistOk (songsStorage st) e)"

definition wellFormed :: "State \<Rightarrow> bool" where
  "wellFormed st =
     (songsOk st \<and> playlistsOk st
      \<and> keyOrdered (songsStorage st) \<and> keyOrdered (playlistsStorage st))"

text \<open>
  No song has a negative duration, and every playlist's \<^verbatim>\<open>totalDuration\<close> is the sum of the
  durations of its songs.
\<close>

definition durationsOk :: "State \<Rightarrow> bool" where
  "durationsOk st =
     ((\<forall>e\<in>set (songsStorage st). 0 \<le> duration (snd e))
      \<and> (\<forall>e\<in>set (playlistsStorage st).
            totalDuration (snd e) = sumDurations (songsStorage st) (songs (snd e))))"

section \<open>Concrete states\<close>

text \<open>
  The scenario of section 8 of the specification: song A (120 seconds) and song B (200
  seconds) are uploaded, alice creates the playlist Mix and adds both songs to it.
\<close>

definition uuidA :: string where "uuidA = ''0a000000-0000-4000-8000-000000000001''"

definition uuidB :: string where "uuidB = ''0b000000-0000-4000-8000-000000000002''"

definition uuidP :: string where "uuidP = ''0c000000-0000-4000-8000-000000000003''"

definition uuidFresh :: string where "uuidFresh = ''0d000000-0000-4000-8000-000000000004''"

definition envOf :: "Principal \<Rightarrow> nat \<Rightarrow> string \<Rightarrow> Env" where
  "envOf who t u = \<lparr> ic_caller = who, ic_time = t, uuidv4 = u \<rparr>"

definition songPayload :: "string \<Rightarrow> int \<Rightarrow> SongPayload" where
  "songPayload t d =
     \<lparr> fileName = t @ ''.mp3'', mimeType = ''audio/mpeg'', title = t, singers = [''Singer''],
       genre = ''rock'', duration = d, releaseDate = ''2020-01-01'' \<rparr>"

definition mixPayload :: PlaylistPayload where
  "mixPayload = \<lparr> name = ''Mix'', description = ''My mix'' \<rparr>"

definition stCatalog :: State where
  "stCatalog =
     exec (envOf ''alice'' 2 uuidB) (UploadSong (songPayload ''B'' 200))
       (exec (envOf ''alice'' 1 uuidA) (UploadSong (songPayload ''A'' 120)) initState)"

definition stEmptyMix :: State where
  "stEmptyMix = exec (envOf ''alice'' 3 uuidP) (CreatePlaylist mixPayload) stCatalog"

definition stMix :: State where
  "stMix = exec (envOf ''alice'' 4 uuidFresh) (AddSongsToPlaylist uuidP [uuidA, uuidB]) stEmptyMix"

definition songA :: Song where
  "songA = \<lparr> fileName = ''A.mp3'', mimeType = ''audio/mpeg'', title = ''A'',
             singers = [''Singer''], genre = ''rock'', duration = 120,
             releaseDate = ''2020-01-01'', song_id = uuidA, uploadedAt = 1 \<rparr>"

definition songB :: Song where
  "songB = \<lparr> fileName = ''B.mp3'', mimeType = ''audio/mpeg'', title = ''B'',
             singers = [''Singer''], genre = ''rock'', duration = 200,
             releaseDate = ''2020-01-01'', song_id = uuidB, uploadedAt = 2 \<rparr>"

definition emptyMix :: Playlist where
  "emptyMix = \<lparr> name = ''Mix'', description = ''My mix'', playlist_id = uuidP,
               admin = ''alice'', songs = [], totalDuration = 0, createdAt = 3,
               updatedAt = None \<rparr>"

definition mix :: Playlist where
  "mix = emptyMix\<lparr>songs := [uuidA, uuidB], totalDuration := 320, updatedAt := Some 4\<rparr>"

text \<open>
  A catalogue with a negative duration: song A lasts 10 seconds and song B -20. Alice adds
  both to Mix and removes A again.
\<close>

definition stNegativeMix :: State where
  "stNegativeMix =
     exec (envOf ''alice'' 4 uuidFresh) (AddSongsToPlaylist uuidP [uuidA, uuidB])
       (exec (envOf ''alice'' 3 uuidP) (CreatePlaylist mixPayload)
         (exec (envOf ''alice'' 2 uuidB) (UploadSong (songPayload ''B'' (- 20)))
           (exec (envOf ''alice'' 1 uuidA) (UploadSong (songPayload ''A'' 10)) initState)))"

definition stNegative :: State where
  "stNegative =
     exec (envOf ''alice'' 5 uuidFresh) (DeleteSongFromPlaylist uuidP uuidA) stNegativeMix"

definition shortA :: Song where
  "shortA = songA\<lparr>duration := 10\<rparr>"

definition negativeB :: Song where
  "negativeB = songB\<lparr>duration := - 20\<rparr>"

definition negativeMixAB :: Playlist where
  "negativeMixAB =
     emptyMix\<lparr>songs := [uuidA, uuidB], totalDuration := - 10, updatedAt := Some 4\<rparr>"

definition negativeMix :: Playlist where
  "negativeMix = emptyMix\<lparr>songs := [uuidB], totalDuration := 0, updatedAt := Some 5\<rparr>"

text \<open>Mix after song A has been removed from it at time 5.\<close>

definition mixWithoutA :: Playlist where
  "mixWithoutA = mix\<lparr>totalDuration := 200, songs := [uuidB], updatedAt := Some 5\<rparr>"

text \<open>
  Mix with both songs, after \<^verbatim>\<open>updateSong\<close> has given song A a duration of 500 seconds.
\<close>

definition stRetimed :: State where
  "stRetimed = exec (envOf ''alice'' 5 uuidFresh) (UpdateSong uuidA (songPayload ''A'' 500)) stMix"

text \<open>
  The playlist that section 4.3 of the specification describes as the result of removing a
  song that is present: the identifier is gone from \<^verbatim>\<open>songs\<close>; \<^verbatim>\<open>totalDuration\<close> is reduced by
  the duration of the song when the song exists and the difference is not negative, and is 0
  otherwise; \<^verbatim>\<open>updatedAt\<close> is the time of the call.
\<close>

definition playlistWithout :: "Song Store \<Rightarrow> nat \<Rightarrow> string \<Rightarrow> Playlist \<Rightarrow> Playlist" where
  "playlistWithout ss now songId p =
     p\<lparr>totalDuration :=
         (case store_get ss songId of
            Some song \<Rightarrow>
              if totalDuration p - duration song \<ge> 0 then totalDuration p - duration song else 0
          | None \<Rightarrow> 0),
       songs := remove1 songId (songs p),
       updatedAt := Some now\<rparr>"

section \<open>The store operations\<close>

lemma store_get_insert:
  "store_get (store_insert k v s) k' = (if k' = k then Some v else store_get s k')"
  by (induction s) (auto simp: store_get_def)

lemma store_get_remove:
  "store_get (store_remove k s) k' = (if k' = k then None else store_get s k')"
  by (induction s) (auto simp: store_get_def store_remove_def)

lemma store_keys_insert: "store_keys (store_insert k v s) = insert k (store_keys s)"
proof (induction s)
  case Nil
  then show ?case by (simp add: store_keys_def)
next
  case (Cons e s)
  obtain k' v' where e: "e = (k', v')" by (cases e)
  from Cons.IH have "fst ` set (store_insert k v s) = insert k (fst ` set s)"
    by (simp add: store_keys_def)
  then show ?case unfolding store_keys_def e by auto
qed

lemma store_get_None_iff: "store_get s k = None \<longleftrightarrow> k \<notin> store_keys s"
  by (simp add: store_get_def store_keys_def map_of_eq_None_iff)

lemma store_get_Some_in_set: "store_get s k = Some v \<Longrightarrow> (k, v) \<in> set s"
  by (simp add: store_get_def map_of_SomeD)

lemma keyOrdered_insert: "keyOrdered s \<Longrightarrow> keyOrdered (store_insert k v s)"
proof (induction s)
  case Nil
  then show ?case by (simp add: keyOrdered_def)
next
  case (Cons e s)
  obtain k' v' where e: "e = (k', v')" by (cases e)
  from Cons.prems have tl: "keyOrdered s" and hd: "\<forall>x\<in>set s. k' < fst x"
    by (auto simp: keyOrdered_def e)
  have keys: "fst ` set (store_insert k v s) = insert k (fst ` set s)"
    using store_keys_insert [of k v s] by (simp add: store_keys_def)
  show ?case
  proof (cases "k = k'")
    case True
    with Cons.prems show ?thesis by (simp add: e keyOrdered_def)
  next
    case ne: False
    show ?thesis
    proof (cases "k < k'")
      case True
      with Cons.prems ne show ?thesis by (auto simp: e keyOrdered_def)
    next
      case False
      with ne have "k' < k" by simp
      moreover have "keyOrdered (store_insert k v s)" using Cons.IH tl .
      ultimately show ?thesis
        using ne False hd keys by (auto simp: e keyOrdered_def)
    qed
  qed
qed

lemma keyOrdered_remove: "keyOrdered s \<Longrightarrow> keyOrdered (store_remove k s)"
  unfolding keyOrdered_def store_remove_def
  by (induction s) auto

lemma keyOrdered_distinct: "keyOrdered s \<Longrightarrow> distinct (map fst s)"
  unfolding keyOrdered_def by (simp add: strict_sorted_iff)

section \<open>The array helpers\<close>

lemma findIndex_ge: "- 1 \<le> findIndex P xs"
  by (induction xs) (auto simp: Let_def)

lemma findIndex_none_iff: "findIndex P xs = - 1 \<longleftrightarrow> (\<forall>x\<in>set xs. \<not> P x)"
proof (induction xs)
  case Nil
  then show ?case by simp
next
  case (Cons y ys)
  have "findIndex P ys + 1 \<noteq> - 1" using findIndex_ge [of P ys] by linarith
  with Cons.IH show ?case by (simp add: Let_def)
qed

lemma splice1_findIndex:
  "x \<in> set xs \<Longrightarrow> splice1 (findIndex (\<lambda>i. i = x) xs) xs = remove1 x xs"
proof (induction xs)
  case Nil
  then show ?case by simp
next
  case (Cons y ys)
  show ?case
  proof (cases "y = x")
    case True
    then show ?thesis by (simp add: splice1_def)
  next
    case False
    with Cons.prems have mem: "x \<in> set ys" by simp
    then have ne: "findIndex (\<lambda>i. i = x) ys \<noteq> - 1" by (simp add: findIndex_none_iff)
    with findIndex_ge [of "\<lambda>i. i = x" ys] have pos: "0 \<le> findIndex (\<lambda>i. i = x) ys" by linarith
    then have "nat (findIndex (\<lambda>i. i = x) ys + 1) = Suc (nat (findIndex (\<lambda>i. i = x) ys))"
      by simp
    with Cons.IH [OF mem] False ne show ?thesis
      by (simp add: splice1_def Let_def)
  qed
qed

lemma notTruthy_find: "notTruthy (List.find (\<lambda>i. i = x) xs) \<longleftrightarrow> x \<notin> set xs \<or> x = ''''"
  by (induction xs) auto

section \<open>Well-formed states\<close>

lemma set_store_insert: "set (store_insert k v s) \<subseteq> insert (k, v) (set s)"
  by (induction s) (auto split: if_splits)

lemma set_store_remove: "set (store_remove k s) \<subseteq> set s"
  by (auto simp: store_remove_def)

lemma isUuid_nonempty: "isUuid u \<Longrightarrow> u \<noteq> ''''"
  by (auto simp: isUuid_def)

lemma songsOk_no_empty_key: "songsOk st \<Longrightarrow> '''' \<notin> store_keys (songsStorage st)"
  by (force simp: songsOk_def store_keys_def dest: isUuid_nonempty)

lemma songsOk_get: "songsOk st \<Longrightarrow> store_get (songsStorage st) k = Some s \<Longrightarrow> song_id s = k \<and> k \<noteq> ''''"
  by (auto simp: songsOk_def dest!: store_get_Some_in_set isUuid_nonempty)

lemma playlistsOk_get:
  "playlistsOk st \<Longrightarrow> store_get (playlistsStorage st) k = Some p
   \<Longrightarrow> playlistOk (songsStorage st) (k, p)"
  by (auto simp: playlistsOk_def dest!: store_get_Some_in_set)

section \<open>The loop of addSongsToPlaylist\<close>

lemma addSongsLoop_frame:
  "addSongsLoop ss ids (pl, f) = (pl', f')
   \<Longrightarrow> pl' = pl\<lparr>songs := songs pl', totalDuration := totalDuration pl'\<rparr>"
proof (induction ids arbitrary: pl f)
  case Nil
  then show ?case by simp
next
  case (Cons x xs)
  show ?case
  proof (cases "store_get ss x")
    case None
    with Cons show ?thesis by simp
  next
    case (Some song)
    show ?thesis
    proof (cases "notTruthy (List.find (\<lambda>i. i = x) (songs pl))")
      case True
      with Some Cons.prems have
        "addSongsLoop ss xs (pl\<lparr>songs := songs pl @ [x],
            totalDuration := totalDuration pl + duration song\<rparr>, True) = (pl', f')" by simp
      from Cons.IH [OF this] show ?thesis by simp
    next
      case False
      with Some Cons show ?thesis by simp
    qed
  qed
qed

lemma sumDurations_append:
  "sumDurations ss (xs @ ys) = sumDurations ss xs + sumDurations ss ys"
  by (simp add: sumDurations_def)

lemma addSongsLoop_sum:
  "addSongsLoop ss ids (pl, f) = (pl', f')
   \<Longrightarrow> totalDuration pl' - sumDurations ss (songs pl')
       = totalDuration pl - sumDurations ss (songs pl)"
proof (induction ids arbitrary: pl f)
  case Nil
  then show ?case by simp
next
  case (Cons x xs)
  show ?case
  proof (cases "store_get ss x")
    case None
    with Cons show ?thesis by simp
  next
    case (Some song)
    show ?thesis
    proof (cases "notTruthy (List.find (\<lambda>i. i = x) (songs pl))")
      case True
      with Some Cons.prems have
        "addSongsLoop ss xs (pl\<lparr>songs := songs pl @ [x],
            totalDuration := totalDuration pl + duration song\<rparr>, True) = (pl', f')" by simp
      from Cons.IH [OF this] Some show ?thesis
        by (simp add: sumDurations_append) (simp add: sumDurations_def songDuration_def)
    next
      case False
      with Some Cons show ?thesis by simp
    qed
  qed
qed

lemma addSongsLoop_ok:
  assumes "'''' \<notin> store_keys ss"
  shows "addSongsLoop ss ids (pl, f) = (pl', f')
   \<Longrightarrow> distinct (songs pl) \<Longrightarrow> \<forall>i\<in>set (songs pl). store_get ss i \<noteq> None
   \<Longrightarrow> distinct (songs pl') \<and> (\<forall>i\<in>set (songs pl'). store_get ss i \<noteq> None)"
proof (induction ids arbitrary: pl f)
  case Nil
  then show ?case by simp
next
  case (Cons x xs)
  show ?case
  proof (cases "store_get ss x")
    case None
    with Cons show ?thesis by simp
  next
    case (Some song)
    then have "x \<noteq> ''''" using assms by (auto simp: store_get_None_iff [symmetric])
    show ?thesis
    proof (cases "notTruthy (List.find (\<lambda>i. i = x) (songs pl))")
      case True
      with \<open>x \<noteq> ''''\<close> have new: "x \<notin> set (songs pl)" by (simp add: notTruthy_find)
      from True Some Cons.prems have
        "addSongsLoop ss xs (pl\<lparr>songs := songs pl @ [x],
            totalDuration := totalDuration pl + duration song\<rparr>, True) = (pl', f')" by simp
      from Cons.IH [OF this] new Some Cons.prems(2,3) show ?thesis by simp
    next
      case False
      with Some Cons show ?thesis by simp
    qed
  qed
qed

text \<open>
  The test of line 197 takes the empty string for absent even when the playlist lists it, so
  a song stored under the empty identifier would be added again. No reachable state stores a
  song under the empty identifier, which is why the facts below ask for that.
\<close>

lemma addSongsLoop_empty_id:
  assumes "store_get ss '''' = Some song" and "'''' \<in> set (songs pl)"
  shows "addSongsLoop ss [''''] (pl, False) =
           (pl\<lparr>songs := songs pl @ [''''], totalDuration := totalDuration pl + duration song\<rparr>,
            True)"
  using assms by (simp add: notTruthy_find)

lemma addSongsLoop_skip:
  assumes "'''' \<notin> store_keys ss"
  shows "\<forall>x\<in>set ids. store_get ss x = None \<or> x \<in> set (songs pl)
   \<Longrightarrow> addSongsLoop ss ids (pl, f) = (pl, f)"
proof (induction ids)
  case Nil
  then show ?case by simp
next
  case (Cons x xs)
  show ?case
  proof (cases "store_get ss x")
    case None
    with Cons show ?thesis by simp
  next
    case (Some song)
    then have "x \<noteq> ''''" using assms by (auto simp: store_get_None_iff [symmetric])
    moreover from Some Cons.prems have "x \<in> set (songs pl)" by simp
    ultimately have "\<not> notTruthy (List.find (\<lambda>i. i = x) (songs pl))"
      by (simp add: notTruthy_find)
    with Some Cons show ?thesis by simp
  qed
qed

lemma wellFormed_songs_insert:
  assumes "wellFormed st" and "song_id v = k" and "isUuid k"
  shows "wellFormed (st\<lparr>songsStorage := store_insert k v (songsStorage st)\<rparr>)"
proof -
  have "songsOk (st\<lparr>songsStorage := store_insert k v (songsStorage st)\<rparr>)"
    using assms set_store_insert [of k v "songsStorage st"]
    by (auto simp: wellFormed_def songsOk_def)
  moreover have "playlistsOk (st\<lparr>songsStorage := store_insert k v (songsStorage st)\<rparr>)"
    using assms(1) by (auto simp: wellFormed_def playlistsOk_def playlistOk_def store_get_insert)
  ultimately show ?thesis
    using assms(1) by (simp add: wellFormed_def keyOrdered_insert)
qed

lemma wellFormed_playlists_insert:
  assumes "wellFormed st" and "playlistOk (songsStorage st) (k, v)"
  shows "wellFormed (st\<lparr>playlistsStorage := store_insert k v (playlistsStorage st)\<rparr>)"
proof -
  have "playlistsOk (st\<lparr>playlistsStorage := store_insert k v (playlistsStorage st)\<rparr>)"
    using assms set_store_insert [of k v "playlistsStorage st"]
    by (auto simp: wellFormed_def playlistsOk_def)
  then show ?thesis
    using assms(1) by (simp add: wellFormed_def keyOrdered_insert songsOk_def)
qed

lemma wellFormed_playlists_remove:
  assumes "wellFormed st"
  shows "wellFormed (st\<lparr>playlistsStorage := store_remove k (playlistsStorage st)\<rparr>)"
proof -
  have "playlistsOk (st\<lparr>playlistsStorage := store_remove k (playlistsStorage st)\<rparr>)"
    using assms set_store_remove [of k "playlistsStorage st"]
    by (auto simp: wellFormed_def playlistsOk_def)
  then show ?thesis
    using assms(1) by (simp add: wellFormed_def keyOrdered_remove songsOk_def)
qed

lemma wellFormed_get_playlist:
  "wellFormed st \<Longrightarrow> store_get (playlistsStorage st) k = Some p
   \<Longrightarrow> playlistOk (songsStorage st) (k, p)"
  by (simp add: wellFormed_def playlistsOk_get)

lemma wellFormed_uploadSong:
  "wellFormed st \<Longrightarrow> envOk env st \<Longrightarrow> wellFormed (snd (uploadSong env payload st))"
  by (auto simp: uploadSong_def envOk_def Let_def intro!: wellFormed_songs_insert
           split: option.splits)

lemma wellFormed_createPlaylist:
  "wellFormed st \<Longrightarrow> envOk env st \<Longrightarrow> wellFormed (snd (createPlaylist env payload st))"
  by (auto simp: createPlaylist_def envOk_def Let_def playlistOk_def
           intro!: wellFormed_playlists_insert split: option.splits)

lemma wellFormed_updatePlaylist:
  "wellFormed st \<Longrightarrow> wellFormed (snd (updatePlaylist env i payload st))"
  by (auto simp: updatePlaylist_def Let_def playlistOk_def
           intro!: wellFormed_playlists_insert dest: wellFormed_get_playlist
           split: option.splits)

lemma wellFormed_updateSong:
  assumes "wellFormed st"
  shows "wellFormed (snd (updateSong i payload st))"
proof (cases "store_get (songsStorage st) i")
  case None
  with assms show ?thesis by (simp add: updateSong_def)
next
  case (Some song)
  then have "(i, song) \<in> set (songsStorage st)" by (rule store_get_Some_in_set)
  with assms have "song_id song = i" and "isUuid i"
    by (auto simp: wellFormed_def songsOk_def)
  then have "wellFormed (st\<lparr>songsStorage := store_insert i
      (song\<lparr>fileName := fileName payload, mimeType := mimeType payload,
             title := title payload, singers := singers payload,
             genre := genre payload, duration := duration payload,
             releaseDate := releaseDate payload\<rparr>) (songsStorage st)\<rparr>)"
    using assms by (intro wellFormed_songs_insert) simp_all
  with Some show ?thesis by (simp add: updateSong_def Let_def)
qed

lemma wellFormed_deletePlaylist:
  "wellFormed st \<Longrightarrow> wellFormed (snd (deletePlaylist env i st))"
  by (auto simp: deletePlaylist_def intro!: wellFormed_playlists_remove split: option.splits)

lemma wellFormed_addSongsToPlaylist:
  assumes "wellFormed st"
  shows "wellFormed (snd (addSongsToPlaylist env i songIds st))"
proof (cases "store_get (playlistsStorage st) i")
  case None
  with assms show ?thesis by (simp add: addSongsToPlaylist_def)
next
  case (Some p)
  obtain p' f' where loop:
    "addSongsLoop (songsStorage st) songIds (p\<lparr>updatedAt := Some (ic_time env)\<rparr>, False) = (p', f')"
    by (cases "addSongsLoop (songsStorage st) songIds (p\<lparr>updatedAt := Some (ic_time env)\<rparr>, False)")
  from assms Some have ok: "playlistOk (songsStorage st) (i, p)"
    by (rule wellFormed_get_playlist)
  have noempty: "'''' \<notin> store_keys (songsStorage st)"
    using assms by (simp add: wellFormed_def songsOk_no_empty_key)
  from addSongsLoop_ok [OF noempty loop] ok
  have "distinct (songs p') \<and> (\<forall>i\<in>set (songs p'). store_get (songsStorage st) i \<noteq> None)"
    by (simp add: playlistOk_def)
  moreover from addSongsLoop_frame [OF loop] have "playlist_id p' = playlist_id p"
    by (metis Playlist.select_convs(1) Playlist.surjective Playlist.update_convs(3,4,6))
  ultimately have "playlistOk (songsStorage st) (playlist_id p, p')"
    using ok by (simp add: playlistOk_def)
  with assms have "wellFormed (st\<lparr>playlistsStorage :=
      store_insert (playlist_id p) p' (playlistsStorage st)\<rparr>)"
    by (rule wellFormed_playlists_insert)
  with assms Some loop show ?thesis
    by (simp add: addSongsToPlaylist_def)
qed

lemma wellFormed_deleteSongFromPlaylist:
  assumes "wellFormed st"
  shows "wellFormed (snd (deleteSongFromPlaylist env i songId st))"
proof (cases "store_get (playlistsStorage st) i")
  case None
  with assms show ?thesis by (simp add: deleteSongFromPlaylist_def)
next
  case (Some p)
  from assms Some have ok: "playlistOk (songsStorage st) (i, p)"
    by (rule wellFormed_get_playlist)
  show ?thesis
  proof (cases "songId \<in> set (songs p)")
    case False
    then have "findIndex (\<lambda>i. i = songId) (songs p) = - 1"
      by (auto simp: findIndex_none_iff)
    with assms Some show ?thesis by (simp add: deleteSongFromPlaylist_def)
  next
    case True
    then have idx: "findIndex (\<lambda>i. i = songId) (songs p) \<noteq> - 1"
      by (auto simp: findIndex_none_iff)
    have "playlistOk (songsStorage st)
            (playlist_id p, p\<lparr>totalDuration := t, songs := remove1 songId (songs p),
                              updatedAt := Some (ic_time env)\<rparr>)" for t
      using ok by (auto simp: playlistOk_def dest: notin_set_remove1)
    with assms have "wellFormed (st\<lparr>playlistsStorage :=
      store_insert (playlist_id p) (p\<lparr>totalDuration := t, songs := remove1 songId (songs p),
                              updatedAt := Some (ic_time env)\<rparr>) (playlistsStorage st)\<rparr>)" for t
      by (rule wellFormed_playlists_insert)
    with assms Some idx True show ?thesis
      by (simp add: deleteSongFromPlaylist_def Let_def splice1_findIndex)
  qed
qed

lemma wellFormed_exec: "wellFormed st \<Longrightarrow> envOk env st \<Longrightarrow> wellFormed (exec env c st)"
  by (cases c)
     (simp_all add: wellFormed_uploadSong wellFormed_createPlaylist wellFormed_updatePlaylist
        wellFormed_addSongsToPlaylist wellFormed_updateSong wellFormed_deletePlaylist
        wellFormed_deleteSongFromPlaylist)

lemma wellFormed_init: "wellFormed initState"
  by (simp add: wellFormed_def initState_def songsOk_def playlistsOk_def keyOrdered_def)

lemma reachableBy_wellFormed: "reachableBy allowed st \<Longrightarrow> wellFormed st"
  by (induction rule: reachableBy.induct) (simp_all add: wellFormed_init wellFormed_exec)

section \<open>The duration aggregate\<close>

lemma sumDurations_cong:
  "\<forall>j\<in>set ids. songDuration ss' j = songDuration ss j
   \<Longrightarrow> sumDurations ss' ids = sumDurations ss ids"
  unfolding sumDurations_def by (induction ids) auto

lemma sumDurations_remove1:
  "x \<in> set xs \<Longrightarrow> sumDurations ss (remove1 x xs) = sumDurations ss xs - songDuration ss x"
  unfolding sumDurations_def using sum_list_map_remove1 [of x xs "songDuration ss"] by simp

lemma songDuration_nonneg:
  "\<forall>e\<in>set ss. 0 \<le> duration (snd e) \<Longrightarrow> 0 \<le> songDuration ss j"
  by (auto simp: songDuration_def split: option.splits dest!: store_get_Some_in_set)

lemma sumDurations_nonneg:
  "\<forall>e\<in>set ss. 0 \<le> duration (snd e) \<Longrightarrow> 0 \<le> sumDurations ss ids"
  unfolding sumDurations_def by (auto intro!: sum_list_nonneg songDuration_nonneg)

lemma durationsOk_songs_insert:
  assumes "durationsOk st" and "0 \<le> duration v"
    and "\<forall>e\<in>set (playlistsStorage st). \<forall>j\<in>set (songs (snd e)).
           songDuration (store_insert k v (songsStorage st)) j = songDuration (songsStorage st) j"
  shows "durationsOk (st\<lparr>songsStorage := store_insert k v (songsStorage st)\<rparr>)"
proof -
  have "\<forall>e\<in>set (store_insert k v (songsStorage st)). 0 \<le> duration (snd e)"
    using assms(1,2) set_store_insert [of k v "songsStorage st"]
    by (auto simp: durationsOk_def)
  moreover have "\<forall>e\<in>set (playlistsStorage st).
      totalDuration (snd e) = sumDurations (store_insert k v (songsStorage st)) (songs (snd e))"
  proof
    fix e assume e: "e \<in> set (playlistsStorage st)"
    with assms(3) have "sumDurations (store_insert k v (songsStorage st)) (songs (snd e))
        = sumDurations (songsStorage st) (songs (snd e))"
      by (intro sumDurations_cong) simp
    with e assms(1) show "totalDuration (snd e)
        = sumDurations (store_insert k v (songsStorage st)) (songs (snd e))"
      by (simp add: durationsOk_def)
  qed
  ultimately show ?thesis by (simp add: durationsOk_def)
qed

lemma durationsOk_playlists_insert:
  assumes "durationsOk st" and "totalDuration v = sumDurations (songsStorage st) (songs v)"
  shows "durationsOk (st\<lparr>playlistsStorage := store_insert k v (playlistsStorage st)\<rparr>)"
  using assms set_store_insert [of k v "playlistsStorage st"]
  by (auto simp: durationsOk_def)

lemma durationsOk_playlists_remove:
  assumes "durationsOk st"
  shows "durationsOk (st\<lparr>playlistsStorage := store_remove k (playlistsStorage st)\<rparr>)"
  using assms set_store_remove [of k "playlistsStorage st"]
  by (auto simp: durationsOk_def)

lemma durationsOk_get:
  "durationsOk st \<Longrightarrow> store_get (playlistsStorage st) k = Some p
   \<Longrightarrow> totalDuration p = sumDurations (songsStorage st) (songs p)"
  by (auto simp: durationsOk_def dest!: store_get_Some_in_set)

lemma durationsOk_uploadSong:
  assumes "wellFormed st" and "durationsOk st" and "envOk env st" and "0 \<le> duration payload"
  shows "durationsOk (snd (uploadSong env payload st))"
proof -
  have fresh: "store_get (songsStorage st) (uuidv4 env) = None"
    using assms(3) by (simp add: envOk_def store_get_None_iff)
  have "\<forall>e\<in>set (playlistsStorage st). \<forall>j\<in>set (songs (snd e)).
           songDuration (store_insert (uuidv4 env) v (songsStorage st)) j
           = songDuration (songsStorage st) j" for v
    using assms(1) fresh
    by (fastforce simp: wellFormed_def playlistsOk_def playlistOk_def songDuration_def
          store_get_insert)
  then have "0 \<le> duration v \<Longrightarrow>
      durationsOk (st\<lparr>songsStorage := store_insert (uuidv4 env) v (songsStorage st)\<rparr>)" for v
    using assms(2) by (intro durationsOk_songs_insert) simp_all
  with assms(2,4) show ?thesis
    by (simp add: uploadSong_def Let_def split: option.splits)
qed

lemma durationsOk_updateSong:
  assumes "durationsOk st" and "durationStable st (UpdateSong i payload)"
  shows "durationsOk (snd (updateSong i payload st))"
proof (cases "store_get (songsStorage st) i")
  case None
  with assms show ?thesis by (simp add: updateSong_def)
next
  case (Some song)
  with assms(2) have same: "duration payload = duration song" by simp
  from Some have "(i, song) \<in> set (songsStorage st)" by (rule store_get_Some_in_set)
  with assms(1) have nn: "0 \<le> duration song" by (auto simp: durationsOk_def)
  let ?v = "song\<lparr>fileName := fileName payload, mimeType := mimeType payload,
             title := title payload, singers := singers payload,
             genre := genre payload, duration := duration payload,
             releaseDate := releaseDate payload\<rparr>"
  have "songDuration (store_insert i ?v (songsStorage st)) j = songDuration (songsStorage st) j"
    for j using Some same by (simp add: songDuration_def store_get_insert)
  then have "durationsOk (st\<lparr>songsStorage := store_insert i ?v (songsStorage st)\<rparr>)"
    using assms(1) nn same by (intro durationsOk_songs_insert) simp_all
  with Some show ?thesis by (simp add: updateSong_def Let_def)
qed

lemma durationsOk_createPlaylist:
  "durationsOk st \<Longrightarrow> durationsOk (snd (createPlaylist env payload st))"
  by (auto simp: createPlaylist_def Let_def sumDurations_def
           intro!: durationsOk_playlists_insert split: option.splits)

lemma durationsOk_updatePlaylist:
  "durationsOk st \<Longrightarrow> durationsOk (snd (updatePlaylist env i payload st))"
  by (auto simp: updatePlaylist_def Let_def
           intro!: durationsOk_playlists_insert dest: durationsOk_get split: option.splits)

lemma durationsOk_deletePlaylist:
  "durationsOk st \<Longrightarrow> durationsOk (snd (deletePlaylist env i st))"
  by (auto simp: deletePlaylist_def intro!: durationsOk_playlists_remove split: option.splits)

lemma durationsOk_addSongsToPlaylist:
  assumes "durationsOk st"
  shows "durationsOk (snd (addSongsToPlaylist env i songIds st))"
proof (cases "store_get (playlistsStorage st) i")
  case None
  with assms show ?thesis by (simp add: addSongsToPlaylist_def)
next
  case (Some p)
  obtain p' f' where loop:
    "addSongsLoop (songsStorage st) songIds (p\<lparr>updatedAt := Some (ic_time env)\<rparr>, False) = (p', f')"
    by (cases "addSongsLoop (songsStorage st) songIds (p\<lparr>updatedAt := Some (ic_time env)\<rparr>, False)")
  from addSongsLoop_sum [OF loop] durationsOk_get [OF assms Some]
  have "totalDuration p' = sumDurations (songsStorage st) (songs p')" by simp
  with assms have "durationsOk (st\<lparr>playlistsStorage :=
      store_insert (playlist_id p) p' (playlistsStorage st)\<rparr>)"
    by (rule durationsOk_playlists_insert)
  with assms Some loop show ?thesis
    by (simp add: addSongsToPlaylist_def)
qed

lemma durationsOk_deleteSongFromPlaylist:
  assumes "wellFormed st" and "durationsOk st"
  shows "durationsOk (snd (deleteSongFromPlaylist env i songId st))"
proof (cases "store_get (playlistsStorage st) i")
  case None
  with assms show ?thesis by (simp add: deleteSongFromPlaylist_def)
next
  case (Some p)
  from assms(1) Some have ok: "playlistOk (songsStorage st) (i, p)"
    by (rule wellFormed_get_playlist)
  have tot: "totalDuration p = sumDurations (songsStorage st) (songs p)"
    using assms(2) Some by (rule durationsOk_get)
  show ?thesis
  proof (cases "songId \<in> set (songs p)")
    case False
    then have "findIndex (\<lambda>i. i = songId) (songs p) = - 1"
      by (auto simp: findIndex_none_iff)
    with assms Some show ?thesis by (simp add: deleteSongFromPlaylist_def)
  next
    case True
    then have idx: "findIndex (\<lambda>i. i = songId) (songs p) \<noteq> - 1"
      by (auto simp: findIndex_none_iff)
    from True ok obtain song where song: "store_get (songsStorage st) songId = Some song"
      by (auto simp: playlistOk_def)
    then have d: "songDuration (songsStorage st) songId = duration song"
      by (simp add: songDuration_def)
    have rest: "sumDurations (songsStorage st) (remove1 songId (songs p))
        = totalDuration p - duration song"
      using sumDurations_remove1 [OF True, of "songsStorage st"] tot d by simp
    moreover have "0 \<le> sumDurations (songsStorage st) (remove1 songId (songs p))"
      using assms(2) by (intro sumDurations_nonneg) (simp add: durationsOk_def)
    ultimately have ge: "0 \<le> totalDuration p - duration song" by simp
    have "durationsOk (st\<lparr>playlistsStorage := store_insert (playlist_id p)
        (p\<lparr>totalDuration := totalDuration p - duration song,
           songs := remove1 songId (songs p), updatedAt := Some (ic_time env)\<rparr>)
        (playlistsStorage st)\<rparr>)"
      using assms(2) rest by (intro durationsOk_playlists_insert) simp_all
    with assms(2) Some idx True song ge show ?thesis
      by (simp add: deleteSongFromPlaylist_def Let_def splice1_findIndex)
  qed
qed

lemma durationsOk_exec:
  "wellFormed st \<Longrightarrow> durationsOk st \<Longrightarrow> envOk env st \<Longrightarrow> durationStable st c
   \<Longrightarrow> durationsOk (exec env c st)"
  by (cases c)
     (simp_all add: durationsOk_uploadSong durationsOk_createPlaylist
        durationsOk_updatePlaylist durationsOk_addSongsToPlaylist durationsOk_updateSong
        durationsOk_deletePlaylist durationsOk_deleteSongFromPlaylist)

lemma durationsOk_init: "durationsOk initState"
  by (simp add: durationsOk_def initState_def)

lemma reachableBy_durationsOk: "reachableBy durationStable st \<Longrightarrow> durationsOk st"
proof (induction rule: reachableBy.induct)
  case init
  show ?case by (rule durationsOk_init)
next
  case (step st env c)
  from step.hyps(1) have "wellFormed st" by (rule reachableBy_wellFormed)
  with step show ?case by (simp add: durationsOk_exec)
qed

section \<open>The concrete states are reachable\<close>

lemmas uuid_defs = uuidA_def uuidB_def uuidP_def uuidFresh_def

lemma stCatalog_eq:
  "stCatalog = \<lparr> songsStorage = [(uuidA, songA), (uuidB, songB)], playlistsStorage = [] \<rparr>"
  by (simp add: stCatalog_def uploadSong_def Let_def initState_def envOf_def songPayload_def
        store_values_def songA_def songB_def uuid_defs)

lemma stEmptyMix_eq:
  "stEmptyMix = \<lparr> songsStorage = [(uuidA, songA), (uuidB, songB)],
                  playlistsStorage = [(uuidP, emptyMix)] \<rparr>"
  by (simp add: stEmptyMix_def stCatalog_eq createPlaylist_def Let_def envOf_def mixPayload_def
        store_values_def emptyMix_def)

lemma stMix_eq:
  "stMix = \<lparr> songsStorage = [(uuidA, songA), (uuidB, songB)],
             playlistsStorage = [(uuidP, mix)] \<rparr>"
  by (simp add: stMix_def stEmptyMix_eq addSongsToPlaylist_def Let_def envOf_def store_get_def
        emptyMix_def mix_def songA_def songB_def uuid_defs)

lemma envOk_concrete:
  "envOk (envOf ''alice'' 1 uuidA) initState"
  "envOk (envOf ''alice'' 2 uuidB) (exec (envOf ''alice'' 1 uuidA) (UploadSong (songPayload ''A'' 120)) initState)"
  "envOk (envOf ''alice'' 3 uuidP) stCatalog"
  "envOk (envOf ''alice'' 4 uuidFresh) stEmptyMix"
  "envOk (envOf who t uuidFresh) stMix"
  by (simp_all add: envOk_def isUuid_def envOf_def initState_def store_keys_def
        stCatalog_eq stEmptyMix_eq stMix_eq uploadSong_def Let_def songPayload_def store_values_def uuid_defs)

lemma durationStable_concrete:
  "durationStable st (UploadSong (songPayload ''A'' 120))"
  "durationStable st (UploadSong (songPayload ''B'' 200))"
  by (simp_all add: songPayload_def)

lemma reachableBy_reachable: "reachableBy allowed st \<Longrightarrow> reachable st"
  unfolding reachable_def
  by (induction rule: reachableBy.induct) (auto intro: reachableBy.intros simp: anyCall_def)

lemma stable_stMix: "reachableBy durationStable stMix"
proof -
  have "reachableBy durationStable stCatalog"
    unfolding stCatalog_def
    by (intro reachableBy.step reachableBy.init envOk_concrete durationStable_concrete)
  then have "reachableBy durationStable stEmptyMix"
    unfolding stEmptyMix_def by (intro reachableBy.step envOk_concrete) simp_all
  then show ?thesis
    unfolding stMix_def by (intro reachableBy.step envOk_concrete) simp_all
qed

lemma reachable_stMix: "reachable stMix"
  using stable_stMix by (rule reachableBy_reachable)

section \<open>Facts about reachable states\<close>

lemma reachable_wellFormed: "reachable st \<Longrightarrow> wellFormed st"
  unfolding reachable_def by (rule reachableBy_wellFormed)

lemma reachable_playlist:
  assumes "reachable st" and "store_get (playlistsStorage st) pid = Some p"
  shows "playlist_id p = pid" and "pid \<noteq> ''''" and "distinct (songs p)"
    and "\<forall>i\<in>set (songs p). store_get (songsStorage st) i \<noteq> None"
  using wellFormed_get_playlist [OF reachable_wellFormed [OF assms(1)] assms(2)]
  by (auto simp: playlistOk_def dest: isUuid_nonempty)

lemma reachable_song_key:
  assumes "reachable st" and "store_get (songsStorage st) k = Some s"
  shows "k \<noteq> ''''"
  using reachable_wellFormed [OF assms(1)] assms(2)
  by (auto simp: wellFormed_def dest: songsOk_get)

lemma reachable_no_empty_key: "reachable st \<Longrightarrow> '''' \<notin> store_keys (songsStorage st)"
  by (auto dest!: reachable_wellFormed simp: wellFormed_def songsOk_no_empty_key)

lemma reachable_step: "reachable st \<Longrightarrow> envOk env st \<Longrightarrow> reachable (exec env c st)"
  unfolding reachable_def by (rule reachableBy.step) (simp_all add: anyCall_def)

section \<open>C1: totalDuration and the sum of the durations\<close>

lemma stNegative_steps:
  "exec (envOf ''alice'' 1 uuidA) (UploadSong (songPayload ''A'' 10)) initState
     = \<lparr> songsStorage = [(uuidA, shortA)], playlistsStorage = [] \<rparr>"
  "exec (envOf ''alice'' 2 uuidB) (UploadSong (songPayload ''B'' (- 20)))
       \<lparr> songsStorage = [(uuidA, shortA)], playlistsStorage = [] \<rparr>
     = \<lparr> songsStorage = [(uuidA, shortA), (uuidB, negativeB)], playlistsStorage = [] \<rparr>"
  "exec (envOf ''alice'' 3 uuidP) (CreatePlaylist mixPayload)
       \<lparr> songsStorage = [(uuidA, shortA), (uuidB, negativeB)], playlistsStorage = [] \<rparr>
     = \<lparr> songsStorage = [(uuidA, shortA), (uuidB, negativeB)],
         playlistsStorage = [(uuidP, emptyMix)] \<rparr>"
  "exec (envOf ''alice'' 4 uuidFresh) (AddSongsToPlaylist uuidP [uuidA, uuidB])
       \<lparr> songsStorage = [(uuidA, shortA), (uuidB, negativeB)],
         playlistsStorage = [(uuidP, emptyMix)] \<rparr>
     = \<lparr> songsStorage = [(uuidA, shortA), (uuidB, negativeB)],
         playlistsStorage = [(uuidP, negativeMixAB)] \<rparr>"
  by (simp_all add: uploadSong_def createPlaylist_def addSongsToPlaylist_def
        Let_def initState_def envOf_def songPayload_def mixPayload_def
        store_values_def store_get_def songA_def songB_def emptyMix_def
        shortA_def negativeB_def negativeMixAB_def uuid_defs)

lemma stNegativeMix_eq:
  "stNegativeMix = \<lparr> songsStorage = [(uuidA, shortA), (uuidB, negativeB)],
                     playlistsStorage = [(uuidP, negativeMixAB)] \<rparr>"
  unfolding stNegativeMix_def by (simp only: stNegative_steps)

lemma stNegative_eq:
  "stNegative = \<lparr> songsStorage = [(uuidA, shortA), (uuidB, negativeB)],
                  playlistsStorage = [(uuidP, negativeMix)] \<rparr>"
  by (simp add: stNegative_def stNegativeMix_eq deleteSongFromPlaylist_def Let_def envOf_def
        store_get_def splice1_def shortA_def negativeMixAB_def negativeMix_def emptyMix_def
        songA_def uuid_defs)

lemma reachable_stNegativeMix: "reachable stNegativeMix"
  unfolding stNegativeMix_def
  by (intro reachable_step, simp add: reachable_def reachableBy.init)
     (simp_all only: stNegative_steps,
      simp_all add: envOk_def isUuid_def envOf_def initState_def store_keys_def uuid_defs)

lemma envOk_stNegativeMix: "envOk (envOf who t uuidFresh) stNegativeMix"
  by (simp add: stNegativeMix_eq envOk_def isUuid_def envOf_def store_keys_def uuid_defs)

lemma reachable_stNegative: "reachable stNegative"
  unfolding stNegative_def
  by (intro reachable_step reachable_stNegativeMix envOk_stNegativeMix)

text \<open>
  C1, as stated, fails. Durations are signed and \<^verbatim>\<open>uploadSong\<close> accepts a negative one. With
  song A (10 seconds) and song B (-20 seconds) in Mix, \<^verbatim>\<open>totalDuration\<close> is -10; removing A
  gives \<open>-10 - 10 < 0\<close>, so line 255 resets \<^verbatim>\<open>totalDuration\<close> to 0, while the remaining
  song B sums to -20.
\<close>

theorem C1_counterexample:
  "reachable stNegative
   \<and> store_get (playlistsStorage stNegative) uuidP = Some negativeMix
   \<and> totalDuration negativeMix = 0
   \<and> sumDurations (songsStorage stNegative) (songs negativeMix) = - 20"
  using reachable_stNegative
  by (simp add: stNegative_eq store_get_def sumDurations_def songDuration_def negativeMix_def
        emptyMix_def negativeB_def songB_def uuid_defs)

text \<open>
  C1 (amended): in every state reached by calls that upload only non-negative durations and
  whose \<^verbatim>\<open>updateSong\<close> calls keep the duration of the song, the \<^verbatim>\<open>totalDuration\<close> of every
  stored playlist equals the sum of \<^verbatim>\<open>duration\<close> over the identifiers in its \<^verbatim>\<open>songs\<close> that
  exist in the song store, and every such call (\<^verbatim>\<open>createPlaylist\<close>, \<^verbatim>\<open>addSongsToPlaylist\<close>,
  \<^verbatim>\<open>deleteSongFromPlaylist\<close> and the others) leads to a state where this holds again.
\<close>

theorem C1_totalDuration_invariant:
  assumes "reachableBy durationStable st"
  shows "(store_get (playlistsStorage st) pid = Some p
          \<longrightarrow> totalDuration p = sumDurations (songsStorage st) (songs p))
       \<and> (envOk env st \<and> durationStable st c
            \<and> store_get (playlistsStorage (exec env c st)) pid' = Some p'
          \<longrightarrow> totalDuration p' = sumDurations (songsStorage (exec env c st)) (songs p'))"
proof (intro conjI impI)
  assume "store_get (playlistsStorage st) pid = Some p"
  with reachableBy_durationsOk [OF assms]
  show "totalDuration p = sumDurations (songsStorage st) (songs p)"
    by (rule durationsOk_get)
next
  assume a: "envOk env st \<and> durationStable st c
            \<and> store_get (playlistsStorage (exec env c st)) pid' = Some p'"
  with assms have "reachableBy durationStable (exec env c st)"
    by (intro reachableBy.step) simp_all
  then have "durationsOk (exec env c st)" by (rule reachableBy_durationsOk)
  moreover from a have "store_get (playlistsStorage (exec env c st)) pid' = Some p'" by simp
  ultimately show "totalDuration p' = sumDurations (songsStorage (exec env c st)) (songs p')"
    by (rule durationsOk_get)
qed

lemma stMix_delete_A:
  "exec (envOf ''alice'' 5 uuidFresh) (DeleteSongFromPlaylist uuidP uuidA) stMix
     = \<lparr> songsStorage = [(uuidA, songA), (uuidB, songB)],
         playlistsStorage = [(uuidP, mixWithoutA)] \<rparr>"
  by (simp add: stMix_eq deleteSongFromPlaylist_def Let_def envOf_def store_get_def splice1_def
        mix_def emptyMix_def mixWithoutA_def songA_def songB_def uuid_defs)

text \<open>
  Witness for C1: Mix holds A and B with \<^verbatim>\<open>totalDuration\<close> 320; after removing A it is 200.
\<close>

theorem C1_totalDuration_invariant_witness:
  "reachableBy durationStable stMix
   \<and> store_get (playlistsStorage stMix) uuidP = Some mix
   \<and> totalDuration mix = 320
   \<and> sumDurations (songsStorage stMix) (songs mix) = 320
   \<and> envOk (envOf ''alice'' 5 uuidFresh) stMix
   \<and> durationStable stMix (DeleteSongFromPlaylist uuidP uuidA)
   \<and> store_get (playlistsStorage
        (exec (envOf ''alice'' 5 uuidFresh) (DeleteSongFromPlaylist uuidP uuidA) stMix)) uuidP
       = Some mixWithoutA
   \<and> totalDuration mixWithoutA = 200
   \<and> sumDurations (songsStorage
        (exec (envOf ''alice'' 5 uuidFresh) (DeleteSongFromPlaylist uuidP uuidA) stMix))
        (songs mixWithoutA) = 200"
proof -
  have g: "store_get (playlistsStorage stMix) uuidP = Some mix"
    by (simp add: stMix_eq store_get_def)
  have e: "envOk (envOf ''alice'' 5 uuidFresh) stMix" by (rule envOk_concrete)
  have g': "store_get (playlistsStorage
        (exec (envOf ''alice'' 5 uuidFresh) (DeleteSongFromPlaylist uuidP uuidA) stMix)) uuidP
       = Some mixWithoutA"
    by (simp only: stMix_delete_A) (simp add: store_get_def)
  have t: "totalDuration mix = 320" "totalDuration mixWithoutA = 200"
    by (simp_all add: mix_def mixWithoutA_def)
  from C1_totalDuration_invariant [OF stable_stMix, of uuidP mix "envOf ''alice'' 5 uuidFresh"
      "DeleteSongFromPlaylist uuidP uuidA" uuidP mixWithoutA] g e g' t stable_stMix
  show ?thesis by simp
qed

text \<open>
  \<^verbatim>\<open>updateSong\<close> (lines 279-290) rewrites the song and no playlist: after song A of Mix has
  been given 500 seconds, Mix still says 320 seconds while its songs sum to 700. This is why
  the invariant above is stated for \<^verbatim>\<open>updateSong\<close> calls that keep the duration.
\<close>

lemma updateSong_changes_the_sum:
  "reachable stRetimed
   \<and> store_get (playlistsStorage stRetimed) uuidP = Some mix
   \<and> totalDuration mix = 320
   \<and> sumDurations (songsStorage stRetimed) (songs mix) = 700"
proof -
  have eq: "stRetimed = \<lparr> songsStorage = [(uuidA, songA\<lparr>duration := 500\<rparr>), (uuidB, songB)],
                           playlistsStorage = [(uuidP, mix)] \<rparr>"
    by (simp add: stRetimed_def stMix_eq updateSong_def Let_def store_get_def songPayload_def
          songA_def)
  have "reachable stRetimed"
    unfolding stRetimed_def by (intro reachable_step reachable_stMix envOk_concrete)
  then show ?thesis
    by (simp add: eq store_get_def sumDurations_def songDuration_def mix_def songA_def songB_def
          uuid_defs)
qed

section \<open>What each playlist call does\<close>



lemma addSongsToPlaylist_non_admin:
  "store_get (playlistsStorage st) pid = Some p \<Longrightarrow> admin p \<noteq> ic_caller env
   \<Longrightarrow> songIds \<noteq> []
   \<Longrightarrow> addSongsToPlaylist env pid songIds st = (Err (nonAdmin pid), st)"
  by (simp add: addSongsToPlaylist_def)

lemma deleteSongFromPlaylist_non_admin:
  "store_get (playlistsStorage st) pid = Some p \<Longrightarrow> admin p \<noteq> ic_caller env
   \<Longrightarrow> pid \<noteq> '''' \<Longrightarrow> songId \<noteq> ''''
   \<Longrightarrow> deleteSongFromPlaylist env pid songId st = (Err (nonAdmin pid), st)"
  by (simp add: deleteSongFromPlaylist_def)

lemma updatePlaylist_admin:
  "store_get (playlistsStorage st) pid = Some p \<Longrightarrow> admin p = ic_caller env
   \<Longrightarrow> updatePlaylist env pid payload st =
         (Ok (p\<lparr>name := name payload, description := description payload,
                 updatedAt := Some (ic_time env)\<rparr>),
          st\<lparr>playlistsStorage := store_insert (playlist_id p)
                (p\<lparr>name := name payload, description := description payload,
                    updatedAt := Some (ic_time env)\<rparr>) (playlistsStorage st)\<rparr>)"
  by (simp add: updatePlaylist_def Let_def)

lemma deleteSongFromPlaylist_present:
  assumes "store_get (playlistsStorage st) pid = Some p" and "admin p = ic_caller env"
    and "pid \<noteq> ''''" and "songId \<noteq> ''''" and "songId \<in> set (songs p)"
  shows "deleteSongFromPlaylist env pid songId st =
           (Ok (playlistWithout (songsStorage st) (ic_time env) songId p),
            st\<lparr>playlistsStorage := store_insert (playlist_id p)
                  (playlistWithout (songsStorage st) (ic_time env) songId p)
                  (playlistsStorage st)\<rparr>)"
proof -
  from assms(5) have "findIndex (\<lambda>i. i = songId) (songs p) \<noteq> - 1"
    by (auto simp: findIndex_none_iff)
  with assms show ?thesis
    by (simp add: deleteSongFromPlaylist_def Let_def splice1_findIndex playlistWithout_def)
qed

lemma deleteSongFromPlaylist_absent:
  assumes "store_get (playlistsStorage st) pid = Some p" and "admin p = ic_caller env"
    and "pid \<noteq> ''''" and "songId \<noteq> ''''" and "songId \<notin> set (songs p)"
  shows "deleteSongFromPlaylist env pid songId st = (Ok p, st)"
proof -
  from assms(5) have "findIndex (\<lambda>i. i = songId) (songs p) = - 1"
    by (auto simp: findIndex_none_iff)
  with assms show ?thesis
    by (simp add: deleteSongFromPlaylist_def)
qed

lemma getPlaylist_after_insert:
  "pid \<noteq> '''' \<Longrightarrow>
   getPlaylist pid (st\<lparr>playlistsStorage := store_insert pid p (playlistsStorage st)\<rparr>) = Ok p"
  by (simp add: getPlaylist_def store_get_insert)

lemma getPlaylist_stored:
  "pid \<noteq> '''' \<Longrightarrow> store_get (playlistsStorage st) pid = Some p \<Longrightarrow> getPlaylist pid st = Ok p"
  by (simp add: getPlaylist_def)

lemma message_texts:
  "fieldCannotBeEmpty ''File name'' = ''File name cannot be empty.''"
  "fieldCannotBeEmpty ''File type'' = ''File type cannot be empty.''"
  "fieldCannotBeEmpty ''Title'' = ''Title cannot be empty.''"
  "fieldCannotBeEmpty ''Song list'' = ''Song list cannot be empty.''"
  "fieldCannotBeEmpty ''Song id'' = ''Song id cannot be empty.''"
  "nonAdmin uuidP
     = ''IC caller isn't the admin of the playlist with id 0c000000-0000-4000-8000-000000000003.''"
  by (simp_all add: fieldCannotBeEmpty_def nonAdmin_def uuidP_def)

lemma stMix_get: "store_get (playlistsStorage stMix) uuidP = Some mix"
  by (simp add: stMix_eq store_get_def)

lemma stEmptyMix_get: "store_get (playlistsStorage stEmptyMix) uuidP = Some emptyMix"
  by (simp add: stEmptyMix_eq store_get_def)

lemma stMix_songs:
  "store_get (songsStorage stMix) uuidA = Some songA"
  "store_get (songsStorage stMix) uuidB = Some songB"
  "store_get (songsStorage stMix) uuidFresh = None"
  by (simp_all add: stMix_eq store_get_def uuid_defs)

lemma stEmptyMix_songs:
  "store_get (songsStorage stEmptyMix) uuidA = Some songA"
  "store_get (songsStorage stEmptyMix) uuidB = Some songB"
  by (simp_all add: stEmptyMix_eq store_get_def uuid_defs)

lemma reachable_stEmptyMix: "reachable stEmptyMix"
proof -
  have "reachable stCatalog"
    unfolding stCatalog_def reachable_def
    by (intro reachableBy.step reachableBy.init envOk_concrete) (simp_all add: anyCall_def)
  then show ?thesis
    unfolding stEmptyMix_def by (intro reachable_step envOk_concrete)
qed

section \<open>C2: calls by somebody who is not the admin\<close>




section \<open>C3: nothing to add\<close>

text \<open>
  C3: when the admin calls \<^verbatim>\<open>addSongsToPlaylist\<close> with a non-empty list in which every
  identifier is either absent from the song store or already in the playlist's \<^verbatim>\<open>songs\<close>, the
  call returns the "nothing added" error and writes nothing: the state after the call is the
  state before it, so the stored playlist keeps its \<^verbatim>\<open>songs\<close>, \<^verbatim>\<open>totalDuration\<close> and
  \<^verbatim>\<open>updatedAt\<close>.
\<close>

theorem C3_nothing_added:
  assumes "reachable st" and "store_get (playlistsStorage st) pid = Some p"
    and "admin p = ic_caller env" and "songIds \<noteq> []"
    and "\<forall>x\<in>set songIds. store_get (songsStorage st) x = None \<or> x \<in> set (songs p)"
  shows "addSongsToPlaylist env pid songIds st = (Err nothingAdded, st)
       \<and> store_get (playlistsStorage (snd (addSongsToPlaylist env pid songIds st))) pid = Some p"
proof -
  have "addSongsLoop (songsStorage st) songIds (p\<lparr>updatedAt := Some (ic_time env)\<rparr>, False)
      = (p\<lparr>updatedAt := Some (ic_time env)\<rparr>, False)"
    using assms(5) by (intro addSongsLoop_skip reachable_no_empty_key assms(1)) simp
  with assms(2,3,4) have "addSongsToPlaylist env pid songIds st = (Err nothingAdded, st)"
    by (simp add: addSongsToPlaylist_def)
  with assms(2) show ?thesis by simp
qed

text \<open>
  Witness for C3: alice adds to Mix the song A, which is already in it, and an identifier
  that no song has.
\<close>

theorem C3_nothing_added_witness:
  "reachable stMix
   \<and> store_get (playlistsStorage stMix) uuidP = Some mix
   \<and> admin mix = ic_caller (envOf ''alice'' 6 uuidFresh)
   \<and> store_get (songsStorage stMix) uuidFresh = None
   \<and> uuidA \<in> set (songs mix)
   \<and> addSongsToPlaylist (envOf ''alice'' 6 uuidFresh) uuidP [uuidA, uuidFresh] stMix
       = (Err nothingAdded, stMix)"
proof -
  have ad: "admin mix = ic_caller (envOf ''alice'' 6 uuidFresh)"
    by (simp add: mix_def emptyMix_def envOf_def)
  have mem: "uuidA \<in> set (songs mix)" by (simp add: mix_def)
  have all: "\<forall>x\<in>set [uuidA, uuidFresh].
               store_get (songsStorage stMix) x = None \<or> x \<in> set (songs mix)"
    using mem stMix_songs(3) by simp
  from C3_nothing_added [OF reachable_stMix stMix_get ad _ all]
    reachable_stMix stMix_get ad mem stMix_songs(3)
  show ?thesis by simp
qed

section \<open>C4: removing a song that is in the playlist\<close>

text \<open>
  C4: when the admin calls \<^verbatim>\<open>deleteSongFromPlaylist\<close> with a song identifier that the
  playlist's \<^verbatim>\<open>songs\<close> contains, the identifier is removed from \<^verbatim>\<open>songs\<close>; if the song exists
  in the song store and \<^verbatim>\<open>totalDuration - song.duration >= 0\<close> the duration is subtracted from
  \<^verbatim>\<open>totalDuration\<close>, otherwise \<^verbatim>\<open>totalDuration\<close> becomes 0; \<^verbatim>\<open>updatedAt\<close> is set to the time of
  the call, and the record is returned and stored under the playlist's identifier.
\<close>

theorem C4_deleteSong_present:
  assumes "reachable st" and "store_get (playlistsStorage st) pid = Some p"
    and "admin p = ic_caller env" and "songId \<in> set (songs p)"
  shows "deleteSongFromPlaylist env pid songId st =
           (Ok (playlistWithout (songsStorage st) (ic_time env) songId p),
            st\<lparr>playlistsStorage := store_insert pid
                  (playlistWithout (songsStorage st) (ic_time env) songId p)
                  (playlistsStorage st)\<rparr>)
       \<and> store_get (playlistsStorage (snd (deleteSongFromPlaylist env pid songId st))) pid
           = Some (playlistWithout (songsStorage st) (ic_time env) songId p)
       \<and> songId \<notin> set (songs (playlistWithout (songsStorage st) (ic_time env) songId p))"
proof -
  from assms(1,2) have key: "playlist_id p = pid" and pid: "pid \<noteq> ''''"
    and dist: "distinct (songs p)"
    and refs: "\<forall>i\<in>set (songs p). store_get (songsStorage st) i \<noteq> None"
    by (rule reachable_playlist)+
  from refs assms(4) obtain song where "store_get (songsStorage st) songId = Some song"
    by auto
  with assms(1) have sid: "songId \<noteq> ''''" by (rule reachable_song_key)
  have call: "deleteSongFromPlaylist env pid songId st =
           (Ok (playlistWithout (songsStorage st) (ic_time env) songId p),
            st\<lparr>playlistsStorage := store_insert pid
                  (playlistWithout (songsStorage st) (ic_time env) songId p)
                  (playlistsStorage st)\<rparr>)"
    using deleteSongFromPlaylist_present [OF assms(2,3) pid sid assms(4)] key by simp
  moreover have "songId \<notin> set (songs (playlistWithout (songsStorage st) (ic_time env) songId p))"
    using dist by (simp add: playlistWithout_def)
  ultimately show ?thesis by (simp add: store_get_insert)
qed

text \<open>
  Witness for C4, once for each branch. Alice removes song A (120 seconds) from Mix (320
  seconds): song B and 200 seconds remain. With song A of 10 seconds and song B of -20
  seconds Mix lasts -10 seconds; removing A would give -20, so \<^verbatim>\<open>totalDuration\<close> becomes 0.
\<close>

theorem C4_deleteSong_present_witness:
  "reachable stMix
   \<and> store_get (playlistsStorage stMix) uuidP = Some mix
   \<and> admin mix = ic_caller (envOf ''alice'' 5 uuidFresh)
   \<and> uuidA \<in> set (songs mix)
   \<and> deleteSongFromPlaylist (envOf ''alice'' 5 uuidFresh) uuidP uuidA stMix
       = (Ok mixWithoutA, stMix\<lparr>playlistsStorage := [(uuidP, mixWithoutA)]\<rparr>)
   \<and> totalDuration mix = 320 \<and> totalDuration mixWithoutA = 200
   \<and> songs mixWithoutA = [uuidB]
   \<and> reachable stNegativeMix
   \<and> store_get (playlistsStorage stNegativeMix) uuidP = Some negativeMixAB
   \<and> admin negativeMixAB = ic_caller (envOf ''alice'' 5 uuidFresh)
   \<and> uuidA \<in> set (songs negativeMixAB)
   \<and> deleteSongFromPlaylist (envOf ''alice'' 5 uuidFresh) uuidP uuidA stNegativeMix
       = (Ok negativeMix, stNegativeMix\<lparr>playlistsStorage := [(uuidP, negativeMix)]\<rparr>)
   \<and> totalDuration negativeMixAB = - 10 \<and> totalDuration negativeMix = 0
   \<and> songs negativeMix = [uuidB]"
proof -
  have ad: "admin mix = ic_caller (envOf ''alice'' 5 uuidFresh)"
    by (simp add: mix_def emptyMix_def envOf_def)
  have mem: "uuidA \<in> set (songs mix)" by (simp add: mix_def)
  have pw: "playlistWithout (songsStorage stMix) (ic_time (envOf ''alice'' 5 uuidFresh)) uuidA mix
      = mixWithoutA"
    by (simp add: playlistWithout_def stMix_songs envOf_def mixWithoutA_def songA_def mix_def)
  have ins: "store_insert uuidP q (playlistsStorage stMix) = [(uuidP, q)]" for q
    by (simp add: stMix_eq)
  have call: "deleteSongFromPlaylist (envOf ''alice'' 5 uuidFresh) uuidP uuidA stMix
       = (Ok mixWithoutA, stMix\<lparr>playlistsStorage := [(uuidP, mixWithoutA)]\<rparr>)"
    using C4_deleteSong_present [OF reachable_stMix stMix_get ad mem, THEN conjunct1]
    by (simp only: pw ins)
  have get': "store_get (playlistsStorage stNegativeMix) uuidP = Some negativeMixAB"
    by (simp add: stNegativeMix_eq store_get_def)
  have ad': "admin negativeMixAB = ic_caller (envOf ''alice'' 5 uuidFresh)"
    by (simp add: negativeMixAB_def emptyMix_def envOf_def)
  have mem': "uuidA \<in> set (songs negativeMixAB)" by (simp add: negativeMixAB_def)
  have pw': "playlistWithout (songsStorage stNegativeMix)
      (ic_time (envOf ''alice'' 5 uuidFresh)) uuidA negativeMixAB = negativeMix"
    by (simp add: playlistWithout_def stNegativeMix_eq store_get_def envOf_def negativeMix_def
          negativeMixAB_def shortA_def songA_def)
  have ins': "store_insert uuidP q (playlistsStorage stNegativeMix) = [(uuidP, q)]" for q
    by (simp add: stNegativeMix_eq)
  have call': "deleteSongFromPlaylist (envOf ''alice'' 5 uuidFresh) uuidP uuidA stNegativeMix
       = (Ok negativeMix, stNegativeMix\<lparr>playlistsStorage := [(uuidP, negativeMix)]\<rparr>)"
    using C4_deleteSong_present [OF reachable_stNegativeMix get' ad' mem', THEN conjunct1]
    by (simp only: pw' ins')
  have vals: "totalDuration mix = 320" "totalDuration mixWithoutA = 200"
    "songs mixWithoutA = [uuidB]" "totalDuration negativeMixAB = - 10"
    "totalDuration negativeMix = 0" "songs negativeMix = [uuidB]"
    by (simp_all add: mix_def mixWithoutA_def negativeMixAB_def negativeMix_def)
  show ?thesis
    by (intro conjI reachable_stMix stMix_get ad mem call vals reachable_stNegativeMix get' ad'
          mem' call')
qed

section \<open>C5: updatePlaylist and blank payloads\<close>

text \<open>
  C5: \<^verbatim>\<open>updatePlaylist\<close> has to fail with a validation error when the name or the description
  of the payload is blank. The \<^verbatim>\<open>updatePlaylist\<close> of lines 162-176 does not look at the
  contents of the payload: alice, the admin, updates Mix with an empty description, and the
  call succeeds and stores the empty description. The \<^verbatim>\<open>updatePlaylist\<close> of
  \<^verbatim>\<open>src/unnamed/part_000\<close> (lines 281-283) rejects this payload before it reads the store, and
  \<^verbatim>\<open>createPlaylist\<close> (lines 94-96) rejects the empty name that lines 162-176 accept as well.
\<close>

theorem C5_blank_description_accepted:
  "reachable stMix
   \<and> store_get (playlistsStorage stMix) uuidP = Some mix
   \<and> admin mix = ic_caller (envOf ''alice'' 6 uuidFresh)
   \<and> updatePlaylist (envOf ''alice'' 6 uuidFresh) uuidP \<lparr>name = ''Mix'', description = ''''\<rparr> stMix
       = (Ok (mix\<lparr>description := '''', updatedAt := Some 6\<rparr>),
          \<lparr> songsStorage = [(uuidA, songA), (uuidB, songB)],
            playlistsStorage = [(uuidP, mix\<lparr>description := '''', updatedAt := Some 6\<rparr>)] \<rparr>)"
  using reachable_stMix stMix_get
  by (simp add: updatePlaylist_def Let_def stMix_eq mix_def emptyMix_def envOf_def)

section \<open>C6: uploadSong and blank fields\<close>

text \<open>
  The checks of lines 57-71 in their order. Each compares the field with the empty string
  (the singers with the empty list); the first that fails decides the message.
\<close>

lemma uploadSong_checks_in_order:
  "(fileName payload = ''''
      \<longrightarrow> uploadSong env payload st = (Err ''File name cannot be empty.'', st))
   \<and> (fileName payload \<noteq> '''' \<and> mimeType payload = ''''
      \<longrightarrow> uploadSong env payload st = (Err ''File type cannot be empty.'', st))
   \<and> (fileName payload \<noteq> '''' \<and> mimeType payload \<noteq> '''' \<and> title payload = ''''
      \<longrightarrow> uploadSong env payload st = (Err ''Title cannot be empty.'', st))
   \<and> (fileName payload \<noteq> '''' \<and> mimeType payload \<noteq> '''' \<and> title payload \<noteq> ''''
        \<and> singers payload = []
      \<longrightarrow> uploadSong env payload st = (Err ''You must provide singer(s).'', st))"
  by (simp add: uploadSong_def message_texts)

text \<open>
  C6: \<^verbatim>\<open>uploadSong\<close> has to fail with the validation error that names the first empty field
  when \<^verbatim>\<open>fileName\<close>, \<^verbatim>\<open>mimeType\<close> or \<^verbatim>\<open>title\<close> is empty after trimming. The \<^verbatim>\<open>uploadSong\<close> of
  lines 56-90 compares each field with the empty string and does not trim it: an upload whose
  file name is a single space passes the checks and the song is stored. The second
  \<^verbatim>\<open>uploadSong\<close> of the same file (lines 423-433) trims the three fields and rejects this
  payload with "File name cannot be empty.".
\<close>

theorem C6_blank_fileName_accepted:
  "uploadSong (envOf ''alice'' 1 uuidA) ((songPayload ''A'' 120)\<lparr>fileName := '' ''\<rparr>) initState
     = (Ok (songA\<lparr>fileName := '' ''\<rparr>),
        \<lparr> songsStorage = [(uuidA, songA\<lparr>fileName := '' ''\<rparr>)], playlistsStorage = [] \<rparr>)"
  by (simp add: uploadSong_def Let_def initState_def envOf_def songPayload_def store_values_def
        songA_def)

section \<open>C7: the same song twice in one call\<close>

text \<open>
  C7: when the admin calls \<^verbatim>\<open>addSongsToPlaylist(id, [s1, s1])\<close> for a song \<^verbatim>\<open>s1\<close> that exists in
  the song store and is not in the playlist, \<^verbatim>\<open>s1\<close> is appended to \<^verbatim>\<open>songs\<close> once and
  \<^verbatim>\<open>totalDuration\<close> grows by the duration of \<^verbatim>\<open>s1\<close> once.
\<close>

theorem C7_duplicate_candidates:
  assumes "reachable st" and "store_get (playlistsStorage st) pid = Some p"
    and "admin p = ic_caller env"
    and "store_get (songsStorage st) s1 = Some song" and "s1 \<notin> set (songs p)"
  shows "addSongsToPlaylist env pid [s1, s1] st =
           (Ok (p\<lparr>updatedAt := Some (ic_time env), songs := songs p @ [s1],
                   totalDuration := totalDuration p + duration song\<rparr>),
            st\<lparr>playlistsStorage := store_insert pid
                  (p\<lparr>updatedAt := Some (ic_time env), songs := songs p @ [s1],
                      totalDuration := totalDuration p + duration song\<rparr>)
                  (playlistsStorage st)\<rparr>)
       \<and> count_list (songs p @ [s1]) s1 = 1"
proof -
  from assms(1,2) have key: "playlist_id p = pid" by (rule reachable_playlist)
  from assms(1,4) have s1: "s1 \<noteq> ''''" by (rule reachable_song_key)
  from assms(5) have first: "notTruthy (List.find (\<lambda>i. i = s1) (songs p))"
    by (simp add: notTruthy_find)
  from s1 have second: "\<not> notTruthy (List.find (\<lambda>i. i = s1) (songs p @ [s1]))"
    by (simp add: notTruthy_find)
  have "addSongsLoop (songsStorage st) [s1, s1] (p\<lparr>updatedAt := Some (ic_time env)\<rparr>, False) =
      (p\<lparr>updatedAt := Some (ic_time env), songs := songs p @ [s1],
         totalDuration := totalDuration p + duration song\<rparr>, True)"
    using assms(4) first second by simp
  with assms(2,3) key have "addSongsToPlaylist env pid [s1, s1] st =
           (Ok (p\<lparr>updatedAt := Some (ic_time env), songs := songs p @ [s1],
                   totalDuration := totalDuration p + duration song\<rparr>),
            st\<lparr>playlistsStorage := store_insert pid
                  (p\<lparr>updatedAt := Some (ic_time env), songs := songs p @ [s1],
                      totalDuration := totalDuration p + duration song\<rparr>)
                  (playlistsStorage st)\<rparr>)"
    by (simp add: addSongsToPlaylist_def)
  moreover from assms(5) have "count_list (songs p @ [s1]) s1 = 1"
    by (simp add: count_list_0_iff)
  ultimately show ?thesis by simp
qed

text \<open>
  Witness for C7: alice adds song A twice to the empty playlist Mix; Mix then holds A once
  and lasts 120 seconds.
\<close>

theorem C7_duplicate_candidates_witness:
  "reachable stEmptyMix
   \<and> store_get (playlistsStorage stEmptyMix) uuidP = Some emptyMix
   \<and> admin emptyMix = ic_caller (envOf ''alice'' 4 uuidFresh)
   \<and> store_get (songsStorage stEmptyMix) uuidA = Some songA
   \<and> uuidA \<notin> set (songs emptyMix)
   \<and> addSongsToPlaylist (envOf ''alice'' 4 uuidFresh) uuidP [uuidA, uuidA] stEmptyMix
       = (Ok (emptyMix\<lparr>updatedAt := Some 4, songs := [uuidA], totalDuration := 120\<rparr>),
          \<lparr> songsStorage = [(uuidA, songA), (uuidB, songB)],
            playlistsStorage =
              [(uuidP, emptyMix\<lparr>updatedAt := Some 4, songs := [uuidA], totalDuration := 120\<rparr>)] \<rparr>)"
proof -
  have ad: "admin emptyMix = ic_caller (envOf ''alice'' 4 uuidFresh)"
    by (simp add: emptyMix_def envOf_def)
  have new: "uuidA \<notin> set (songs emptyMix)" by (simp add: emptyMix_def)
  have ins: "stEmptyMix\<lparr>playlistsStorage := store_insert uuidP q (playlistsStorage stEmptyMix)\<rparr>
      = \<lparr> songsStorage = [(uuidA, songA), (uuidB, songB)],
          playlistsStorage = [(uuidP, q)] \<rparr>" for q
    by (simp add: stEmptyMix_eq)
  have "addSongsToPlaylist (envOf ''alice'' 4 uuidFresh) uuidP [uuidA, uuidA] stEmptyMix
       = (Ok (emptyMix\<lparr>updatedAt := Some 4, songs := [uuidA], totalDuration := 120\<rparr>),
          \<lparr> songsStorage = [(uuidA, songA), (uuidB, songB)],
            playlistsStorage =
              [(uuidP, emptyMix\<lparr>updatedAt := Some 4, songs := [uuidA], totalDuration := 120\<rparr>)] \<rparr>)"
    using C7_duplicate_candidates [OF reachable_stEmptyMix stEmptyMix_get ad
        stEmptyMix_songs(1) new, THEN conjunct1]
    by (simp add: envOf_def ins) (simp add: emptyMix_def songA_def)
  with reachable_stEmptyMix stEmptyMix_get ad stEmptyMix_songs(1) new
  show ?thesis by (intro conjI)
qed

section \<open>C8: removing a song that is not in the playlist\<close>

text \<open>
  C8: when the admin calls \<^verbatim>\<open>deleteSongFromPlaylist\<close> with a non-empty song identifier that
  the playlist's \<^verbatim>\<open>songs\<close> does not contain, the call succeeds, returns the stored record as
  it is (\<^verbatim>\<open>updatedAt\<close> included) and writes nothing: the state after the call is the state
  before it. Blank identifiers that are not empty are covered.
\<close>

theorem C8_deleteSong_absent:
  assumes "reachable st" and "store_get (playlistsStorage st) pid = Some p"
    and "admin p = ic_caller env" and "songId \<noteq> ''''" and "songId \<notin> set (songs p)"
  shows "deleteSongFromPlaylist env pid songId st = (Ok p, st)"
proof -
  from assms(1,2) have "pid \<noteq> ''''" by (rule reachable_playlist)
  with assms(2,3) show ?thesis
    using assms(4,5) by (rule deleteSongFromPlaylist_absent)
qed

text \<open>
  Witness for C8: alice removes from Mix an identifier that Mix does not list.
\<close>

theorem C8_deleteSong_absent_witness:
  "reachable stMix
   \<and> store_get (playlistsStorage stMix) uuidP = Some mix
   \<and> admin mix = ic_caller (envOf ''alice'' 7 uuidFresh)
   \<and> uuidFresh \<noteq> ''''
   \<and> uuidFresh \<notin> set (songs mix)
   \<and> updatedAt mix = Some 4
   \<and> deleteSongFromPlaylist (envOf ''alice'' 7 uuidFresh) uuidP uuidFresh stMix = (Ok mix, stMix)"
proof -
  have ad: "admin mix = ic_caller (envOf ''alice'' 7 uuidFresh)"
    by (simp add: mix_def emptyMix_def envOf_def)
  have ne: "uuidFresh \<noteq> ''''" by (simp add: uuidFresh_def)
  have new: "uuidFresh \<notin> set (songs mix)" by (simp add: mix_def uuid_defs)
  have upd: "updatedAt mix = Some 4" by (simp add: mix_def)
  from C8_deleteSong_absent [OF reachable_stMix stMix_get ad ne new]
    reachable_stMix stMix_get ad ne new upd
  show ?thesis by (intro conjI)
qed

section \<open>C9: no song twice in a playlist\<close>

text \<open>
  C9: in every reachable state the \<^verbatim>\<open>songs\<close> of every stored playlist contains no identifier
  twice, and every call leads to a state where this holds again.
\<close>

theorem C9_songs_distinct:
  assumes "reachable st"
  shows "(store_get (playlistsStorage st) pid = Some p \<longrightarrow> distinct (songs p))
       \<and> (envOk env st \<and> store_get (playlistsStorage (exec env c st)) pid' = Some p'
          \<longrightarrow> distinct (songs p'))"
proof (intro conjI impI)
  assume "store_get (playlistsStorage st) pid = Some p"
  with assms show "distinct (songs p)" by (rule reachable_playlist)
next
  assume a: "envOk env st \<and> store_get (playlistsStorage (exec env c st)) pid' = Some p'"
  with assms have "reachable (exec env c st)" by (intro reachable_step) simp_all
  moreover from a have "store_get (playlistsStorage (exec env c st)) pid' = Some p'" by simp
  ultimately show "distinct (songs p')" by (rule reachable_playlist)
qed

text \<open>
  Witness for C9: Mix lists A and B; adding A, A, B and A again to the empty Mix gives the
  same list.
\<close>

theorem C9_songs_distinct_witness:
  "reachable stEmptyMix
   \<and> store_get (playlistsStorage stEmptyMix) uuidP = Some emptyMix
   \<and> distinct (songs emptyMix)
   \<and> envOk (envOf ''alice'' 4 uuidFresh) stEmptyMix
   \<and> store_get (playlistsStorage (exec (envOf ''alice'' 4 uuidFresh)
         (AddSongsToPlaylist uuidP [uuidA, uuidA, uuidB, uuidA]) stEmptyMix)) uuidP = Some mix
   \<and> songs mix = [uuidA, uuidB]
   \<and> distinct (songs mix)"
proof -
  have e: "envOk (envOf ''alice'' 4 uuidFresh) stEmptyMix" by (rule envOk_concrete)
  have g: "store_get (playlistsStorage (exec (envOf ''alice'' 4 uuidFresh)
         (AddSongsToPlaylist uuidP [uuidA, uuidA, uuidB, uuidA]) stEmptyMix)) uuidP = Some mix"
    by (simp add: stEmptyMix_eq addSongsToPlaylist_def Let_def envOf_def store_get_def
        emptyMix_def mix_def songA_def songB_def uuid_defs)
  have s: "songs mix = [uuidA, uuidB]" by (simp add: mix_def)
  note inv = C9_songs_distinct [OF reachable_stEmptyMix, of uuidP emptyMix
      "envOf ''alice'' 4 uuidFresh" "AddSongsToPlaylist uuidP [uuidA, uuidA, uuidB, uuidA]"
      uuidP mix]
  from inv stEmptyMix_get have d0: "distinct (songs emptyMix)" by simp
  from inv e g have d1: "distinct (songs mix)" by simp
  show ?thesis by (intro conjI reachable_stEmptyMix stEmptyMix_get d0 e g s d1)
qed

section \<open>C10: the returned record is the stored record\<close>

text \<open>
  C10: whenever \<^verbatim>\<open>updatePlaylist\<close>, \<^verbatim>\<open>addSongsToPlaylist\<close> or \<^verbatim>\<open>deleteSongFromPlaylist\<close> returns
  a successful result in a reachable state, the record it returns is the record that the
  playlist store holds under that identifier after the call, and \<^verbatim>\<open>getPlaylist\<close> with the same
  identifier returns it.
\<close>

theorem C10_returned_is_stored:
  assumes "reachable st"
  shows "(updatePlaylist env pid payload st = (Ok p1, st1)
          \<longrightarrow> store_get (playlistsStorage st1) pid = Some p1 \<and> getPlaylist pid st1 = Ok p1)
       \<and> (addSongsToPlaylist env pid songIds st = (Ok p2, st2)
          \<longrightarrow> store_get (playlistsStorage st2) pid = Some p2 \<and> getPlaylist pid st2 = Ok p2)
       \<and> (deleteSongFromPlaylist env pid songId st = (Ok p3, st3)
          \<longrightarrow> store_get (playlistsStorage st3) pid = Some p3 \<and> getPlaylist pid st3 = Ok p3)"
proof (cases "store_get (playlistsStorage st) pid")
  case None
  then show ?thesis
    by (auto simp: updatePlaylist_def addSongsToPlaylist_def deleteSongFromPlaylist_def
          split: if_splits)
next
  case (Some p)
  with assms have key: "playlist_id p = pid" and pid: "pid \<noteq> ''''"
    by (rule reachable_playlist)+
  have upd: "updatePlaylist env pid payload st = (Ok p1, st1)
      \<longrightarrow> store_get (playlistsStorage st1) pid = Some p1 \<and> getPlaylist pid st1 = Ok p1"
    using Some key pid
    by (auto simp: updatePlaylist_def Let_def getPlaylist_def store_get_insert
          split: if_splits)
  have add: "addSongsToPlaylist env pid songIds st = (Ok p2, st2)
      \<longrightarrow> store_get (playlistsStorage st2) pid = Some p2 \<and> getPlaylist pid st2 = Ok p2"
    using Some key pid
    by (auto simp: addSongsToPlaylist_def getPlaylist_def store_get_insert
          split: if_splits prod.splits)
  have del: "deleteSongFromPlaylist env pid songId st = (Ok p3, st3)
      \<longrightarrow> store_get (playlistsStorage st3) pid = Some p3 \<and> getPlaylist pid st3 = Ok p3"
    using Some key pid
    by (auto simp: deleteSongFromPlaylist_def Let_def getPlaylist_def store_get_insert
          split: if_splits)
  from upd add del show ?thesis by (intro conjI)
qed

text \<open>
  Witness for C10: alice renames the empty Mix, adds song A to the empty Mix, and removes
  song A from Mix; each time \<^verbatim>\<open>getPlaylist\<close> returns the record that the call returned.
\<close>

theorem C10_returned_is_stored_witness:
  "reachable stEmptyMix \<and> reachable stMix
   \<and> updatePlaylist (envOf ''alice'' 4 uuidFresh) uuidP \<lparr>name = ''Road'', description = ''Trip''\<rparr>
        stEmptyMix
       = (Ok (emptyMix\<lparr>name := ''Road'', description := ''Trip'', updatedAt := Some 4\<rparr>),
          stEmptyMix\<lparr>playlistsStorage :=
            [(uuidP, emptyMix\<lparr>name := ''Road'', description := ''Trip'', updatedAt := Some 4\<rparr>)]\<rparr>)
   \<and> getPlaylist uuidP (stEmptyMix\<lparr>playlistsStorage :=
            [(uuidP, emptyMix\<lparr>name := ''Road'', description := ''Trip'', updatedAt := Some 4\<rparr>)]\<rparr>)
       = Ok (emptyMix\<lparr>name := ''Road'', description := ''Trip'', updatedAt := Some 4\<rparr>)
   \<and> addSongsToPlaylist (envOf ''alice'' 4 uuidFresh) uuidP [uuidA] stEmptyMix
       = (Ok (emptyMix\<lparr>updatedAt := Some 4, songs := [uuidA], totalDuration := 120\<rparr>),
          stEmptyMix\<lparr>playlistsStorage :=
            [(uuidP, emptyMix\<lparr>updatedAt := Some 4, songs := [uuidA], totalDuration := 120\<rparr>)]\<rparr>)
   \<and> getPlaylist uuidP (stEmptyMix\<lparr>playlistsStorage :=
            [(uuidP, emptyMix\<lparr>updatedAt := Some 4, songs := [uuidA], totalDuration := 120\<rparr>)]\<rparr>)
       = Ok (emptyMix\<lparr>updatedAt := Some 4, songs := [uuidA], totalDuration := 120\<rparr>)
   \<and> deleteSongFromPlaylist (envOf ''alice'' 5 uuidFresh) uuidP uuidA stMix
       = (Ok mixWithoutA, stMix\<lparr>playlistsStorage := [(uuidP, mixWithoutA)]\<rparr>)
   \<and> getPlaylist uuidP (stMix\<lparr>playlistsStorage := [(uuidP, mixWithoutA)]\<rparr>) = Ok mixWithoutA"
proof -
  have u: "updatePlaylist (envOf ''alice'' 4 uuidFresh) uuidP
        \<lparr>name = ''Road'', description = ''Trip''\<rparr> stEmptyMix
       = (Ok (emptyMix\<lparr>name := ''Road'', description := ''Trip'', updatedAt := Some 4\<rparr>),
          stEmptyMix\<lparr>playlistsStorage :=
            [(uuidP, emptyMix\<lparr>name := ''Road'', description := ''Trip'', updatedAt := Some 4\<rparr>)]\<rparr>)"
    by (simp add: updatePlaylist_def Let_def stEmptyMix_eq store_get_def envOf_def emptyMix_def)
  have a: "addSongsToPlaylist (envOf ''alice'' 4 uuidFresh) uuidP [uuidA] stEmptyMix
       = (Ok (emptyMix\<lparr>updatedAt := Some 4, songs := [uuidA], totalDuration := 120\<rparr>),
          stEmptyMix\<lparr>playlistsStorage :=
            [(uuidP, emptyMix\<lparr>updatedAt := Some 4, songs := [uuidA], totalDuration := 120\<rparr>)]\<rparr>)"
    by (simp add: addSongsToPlaylist_def stEmptyMix_eq store_get_def envOf_def emptyMix_def
          songA_def uuid_defs)
  have d: "deleteSongFromPlaylist (envOf ''alice'' 5 uuidFresh) uuidP uuidA stMix
       = (Ok mixWithoutA, stMix\<lparr>playlistsStorage := [(uuidP, mixWithoutA)]\<rparr>)"
    by (simp add: stMix_eq deleteSongFromPlaylist_def Let_def envOf_def store_get_def splice1_def
        mix_def emptyMix_def mixWithoutA_def songA_def songB_def uuid_defs)
  note early = C10_returned_is_stored [OF reachable_stEmptyMix,
      where env = "envOf ''alice'' 4 uuidFresh" and pid = uuidP
        and payload = "\<lparr>name = ''Road'', description = ''Trip''\<rparr>"
        and ?p1.0 = "emptyMix\<lparr>name := ''Road'', description := ''Trip'', updatedAt := Some 4\<rparr>"
        and ?st1.0 = "stEmptyMix\<lparr>playlistsStorage :=
            [(uuidP, emptyMix\<lparr>name := ''Road'', description := ''Trip'', updatedAt := Some 4\<rparr>)]\<rparr>"
        and songIds = "[uuidA]"
        and ?p2.0 = "emptyMix\<lparr>updatedAt := Some 4, songs := [uuidA], totalDuration := 120\<rparr>"
        and ?st2.0 = "stEmptyMix\<lparr>playlistsStorage :=
            [(uuidP, emptyMix\<lparr>updatedAt := Some 4, songs := [uuidA], totalDuration := 120\<rparr>)]\<rparr>"]
  note late = C10_returned_is_stored [OF reachable_stMix,
      where env = "envOf ''alice'' 5 uuidFresh" and pid = uuidP and songId = uuidA
        and ?p3.0 = mixWithoutA
        and ?st3.0 = "stMix\<lparr>playlistsStorage := [(uuidP, mixWithoutA)]\<rparr>"]
  from early u have gu: "getPlaylist uuidP (stEmptyMix\<lparr>playlistsStorage :=
            [(uuidP, emptyMix\<lparr>name := ''Road'', description := ''Trip'', updatedAt := Some 4\<rparr>)]\<rparr>)
       = Ok (emptyMix\<lparr>name := ''Road'', description := ''Trip'', updatedAt := Some 4\<rparr>)"
    by blast
  from early a have ga: "getPlaylist uuidP (stEmptyMix\<lparr>playlistsStorage :=
            [(uuidP, emptyMix\<lparr>updatedAt := Some 4, songs := [uuidA], totalDuration := 120\<rparr>)]\<rparr>)
       = Ok (emptyMix\<lparr>updatedAt := Some 4, songs := [uuidA], totalDuration := 120\<rparr>)"
    by blast
  from late d have gd:
    "getPlaylist uuidP (stMix\<lparr>playlistsStorage := [(uuidP, mixWithoutA)]\<rparr>) = Ok mixWithoutA"
    by blast
  show ?thesis by (intro conjI reachable_stEmptyMix reachable_stMix u gu a ga d gd)
qed

section \<open>The scenario of section 8 of the specification\<close>

text \<open>
  Create the playlist, add song A (120 seconds) and song B (200 seconds): 320 seconds.
  Remove A: 200 seconds and B alone. Remove B: 0 seconds and no song.
\<close>

lemma scenario_section8:
  "store_get (playlistsStorage stMix) uuidP = Some mix"
  "totalDuration mix = 320"
  "fst (deleteSongFromPlaylist (envOf ''alice'' 5 uuidFresh) uuidP uuidA stMix) = Ok mixWithoutA"
  "totalDuration mixWithoutA = 200 \<and> songs mixWithoutA = [uuidB]"
  "fst (deleteSongFromPlaylist (envOf ''alice'' 6 uuidFresh) uuidP uuidB
         (snd (deleteSongFromPlaylist (envOf ''alice'' 5 uuidFresh) uuidP uuidA stMix)))
     = Ok (mixWithoutA\<lparr>totalDuration := 0, songs := [], updatedAt := Some 6\<rparr>)"
  by (simp_all add: stMix_eq deleteSongFromPlaylist_def Let_def envOf_def store_get_def
        splice1_def mix_def emptyMix_def mixWithoutA_def songA_def songB_def uuid_defs)

end
